theory Spec2Isabelle
  imports Main
begin

section \<open>Shared data\<close>

text \<open>
  Errors raised by the modelled code. \<open>TypeError\<close> is the JavaScript error of reading a
  property of \<open>undefined\<close>; \<open>NotFound\<close> is the \<open>Error\<close> thrown for an unregistered
  page or view id; \<open>AnimationFailure\<close> stands for whatever the animation protocol throws.
\<close>

datatype error = TypeError | NotFound string | AnimationFailure string

text \<open>
  \<open>TransitionConfig\<close> of navigationManager.ts. Only the fields that the modelled functions
  carry around are kept (\<open>direction\<close>, \<open>easing\<close> and \<open>customCSS\<close> are never read by them).
\<close>

record transitionConfig =
  ttype :: string
  duration :: "int option"

text \<open>
  A value of the shared state store (stateManager.ts). A key that was never set reads
  \<open>undefined\<close>, which is \<open>None\<close> of the store's map.
\<close>

datatype val = VNull | VBool bool | VStr string | VNum int

text \<open>
  The payload of a queue item (\<open>params\<close>) or of an emitted event (\<open>detail\<close>), as far
  as its shape is used: \<open>{pageId, config}\<close>, \<open>{viewId, config}\<close>,
  \<open>{newPageId/newViewId, previousPageId/previousViewId}\<close>, \<open>{viewId}\<close>,
  \<open>{viewId, previousViewId}\<close> and \<open>{targetViewId, exitBehavior}\<close>.
\<close>

datatype detail =
    NoDetail
  | PageDetail string transitionConfig
  | ViewDetail string transitionConfig
  | ChangedDetail string "val option"
  | ReEnteredDetail string
  | ActivatedDetail string "string option"
  | DeactivatedDetail string string
  | OtherDetail string

section \<open>The orchestrator's queue (eventBus.ts)\<close>

text \<open>
  \<open>ApplicationEventQueueItem\<close>. Timestamps are the integer milliseconds of \<open>Date.now()\<close>.
  Items are compared by value here, where the source compares object references
  (\<open>indexOf\<close>); the two agree whenever the generated \<open>instanceIdentifier\<close>s are distinct,
  and the selection below removes the same queue position in either reading.
\<close>

record queueItem =
  instanceIdentifier :: string
  eventBusId :: string
  eventId :: string
  priority :: string
  scheduleFor :: int
  expiry :: "int option"
  params :: detail

text \<open>
  The constructor. \<open>guid\<close> is the value \<open>generateGUID()\<close> returns and \<open>now\<close> the value of
  \<open>Date.now()\<close>; both are inputs of the model. An absent \<open>scheduleFor\<close> defaults to \<open>now\<close>.
\<close>

definition ApplicationEventQueueItem ::
  "string \<Rightarrow> int \<Rightarrow> string \<Rightarrow> string \<Rightarrow> string \<Rightarrow> int option \<Rightarrow> int option \<Rightarrow> detail \<Rightarrow> queueItem"
where
  "ApplicationEventQueueItem guid now busId evId prio sched expi ps =
     \<lparr> instanceIdentifier = guid, eventBusId = busId, eventId = evId, priority = prio,
       scheduleFor = (case sched of None \<Rightarrow> now | Some t \<Rightarrow> t),
       expiry = expi, params = ps \<rparr>"

text \<open>\<open>removeQueuedNavigationEvents\<close>: drop every queued item of the given bus and event.\<close>

definition removeQueuedNavigationEvents :: "string \<Rightarrow> string \<Rightarrow> queueItem list \<Rightarrow> queueItem list" where
  "removeQueuedNavigationEvents evId busId q =
     filter (\<lambda>item. \<not> (eventBusId item = busId \<and> eventId item = evId)) q"

text \<open>
  \<open>enqueue(event, forBus, priority = "default", params, scheduleFor, expiry)\<close>; returns the
  new queue and the item's identifier.
\<close>

definition enqueue ::
  "string \<Rightarrow> int \<Rightarrow> string \<Rightarrow> string \<Rightarrow> string option \<Rightarrow> detail \<Rightarrow> int option \<Rightarrow> int option
     \<Rightarrow> queueItem list \<Rightarrow> queueItem list \<times> string"
where
  "enqueue guid now event forBus prio ps sched expi q =
     (let q1 = (if forBus = ''navigation-manager''
                   \<and> (event = ''navigate-to-page'' \<or> event = ''navigate-to-view'')
                then removeQueuedNavigationEvents event forBus q else q);
          item = ApplicationEventQueueItem guid now forBus event
                   (case prio of None \<Rightarrow> ''default'' | Some p \<Rightarrow> p) sched expi ps
      in (q1 @ [item], instanceIdentifier item))"

text \<open>
  \<open>rescheduleQueuedEvent\<close>: \<open>filter(...)[0].scheduleFor = newSchedule\<close>. The first queued
  item with the identifier is mutated in place; when no item matches, \<open>[0]\<close> is
  \<open>undefined\<close> and the assignment throws a TypeError.
\<close>

fun setScheduleOfFirst :: "string \<Rightarrow> int \<Rightarrow> queueItem list \<Rightarrow> queueItem list" where
  "setScheduleOfFirst ident t [] = []"
| "setScheduleOfFirst ident t (e # es) =
     (if instanceIdentifier e = ident then e\<lparr>scheduleFor := t\<rparr> # es
      else e # setScheduleOfFirst ident t es)"

definition rescheduleQueuedEvent :: "string \<Rightarrow> int \<Rightarrow> queueItem list \<Rightarrow> error + queueItem list" where
  "rescheduleQueuedEvent ident newSchedule q =
     (case filter (\<lambda>e. instanceIdentifier e = ident) q of
        [] \<Rightarrow> Inl TypeError
      | _ # _ \<Rightarrow> Inr (setScheduleOfFirst ident newSchedule q))"

subsection \<open>Selection of the next item\<close>

text \<open>The filter of \<open>getPrioritisedEventFromQueue\<close>: a scheduled item waits for its time.\<close>

definition isAvailable :: "int \<Rightarrow> queueItem \<Rightarrow> bool" where
  "isAvailable currentTime event =
     (if priority event = ''scheduled'' then scheduleFor event \<le> currentTime else True)"

text \<open>
  The table \<open>priorityOrder\<close> is a plain object with the four classes as its own keys.
  Reading it with another string finds nothing, unless the string names a property that
  every object inherits from \<open>Object.prototype\<close>: then the read returns that property, a
  function (the prototype object for \<open>__proto__\<close>), which is not a number. The names are
  those of the language standard.
\<close>

definition inheritedProperties :: "string list" where
  "inheritedProperties =
     [''constructor'', ''hasOwnProperty'', ''isPrototypeOf'', ''propertyIsEnumerable'',
      ''toLocaleString'', ''toString'', ''valueOf'', ''__proto__'',
      ''__defineGetter__'', ''__defineSetter__'', ''__lookupGetter__'', ''__lookupSetter__'']"

text \<open>
  The number the table holds for a class, with the fallback \<open>|| 4\<close> for a string that
  is no key of it.
\<close>

definition classNumber :: "string \<Rightarrow> int" where
  "classNumber p =
     (if p = ''scheduled'' then 1
      else if p = ''immediate'' then 2
      else if p = ''animation'' then 3
      else 4)"

text \<open>
  What \<open>priorityOrder[p] || 4\<close> evaluates to: a number, or the inherited property of
  that name, which is truthy and so kept by \<open>||\<close>.
\<close>

datatype tableValue = Num int | Inherited string

definition priorityOrder :: "string \<Rightarrow> tableValue" where
  "priorityOrder p = (if p \<in> set inheritedProperties then Inherited p else Num (classNumber p))"

text \<open>
  The subtraction of two such values: of numbers their difference, and \<open>NaN\<close> (here
  \<open>None\<close>) as soon as one operand is not a number.
\<close>

fun subtractValues :: "tableValue \<Rightarrow> tableValue \<Rightarrow> int option" where
  "subtractValues (Num x) (Num y) = Some (x - y)"
| "subtractValues (Num x) (Inherited k) = None"
| "subtractValues (Inherited k) v = None"

text \<open>
  The comparator handed to \<open>sort\<close>. The test \<open>!==\<close> compares numbers by value and
  inherited properties by identity, which is by name.
\<close>

definition compareEvents :: "queueItem \<Rightarrow> queueItem \<Rightarrow> int option" where
  "compareEvents a b =
     (let aPriority = priorityOrder (priority a); bPriority = priorityOrder (priority b)
      in if aPriority \<noteq> bPriority then subtractValues aPriority bPriority
         else Some (scheduleFor a - scheduleFor b))"

text \<open>The sort reads a comparator result of \<open>NaN\<close> as 0.\<close>

definition sortCompare :: "queueItem \<Rightarrow> queueItem \<Rightarrow> int" where
  "sortCompare a b = (case compareEvents a b of None \<Rightarrow> 0 | Some v \<Rightarrow> v)"

text \<open>
  \<open>Array.prototype.sort\<close> is a stable sort (ECMAScript 2019). It is modelled by the
  stable insertion sort for the comparator: an element goes in front of the first element
  it does not compare greater than. An item whose priority names an inherited property
  ties with every item of another priority, so the comparator is then not a consistent
  order; two such items keep their queue order, and for longer lists the standard leaves
  the result to the engine, where the model follows the insertion.
\<close>

fun placeEvent :: "queueItem \<Rightarrow> queueItem list \<Rightarrow> queueItem list" where
  "placeEvent x [] = [x]"
| "placeEvent x (y # ys) =
     (if sortCompare x y \<le> 0 then x # y # ys else y # placeEvent x ys)"

fun sortEvents :: "queueItem list \<Rightarrow> queueItem list" where
  "sortEvents [] = []"
| "sortEvents (x # xs) = placeEvent x (sortEvents xs)"

text \<open>
  \<open>getPrioritisedEventFromQueue\<close>: the selected item (\<open>None\<close> for \<open>null\<close>) and the queue
  after the \<open>splice\<close>.
\<close>

definition getPrioritisedEventFromQueue :: "int \<Rightarrow> queueItem list \<Rightarrow> queueItem option \<times> queueItem list" where
  "getPrioritisedEventFromQueue currentTime q =
     (let availableEvents = filter (isAvailable currentTime) q
      in if availableEvents = [] then (None, q)
         else (let nextEvent = hd (sortEvents availableEvents)
               in (Some nextEvent, remove1 nextEvent q)))"

section \<open>The event bus (eventBus.ts, class EventBus)\<close>

text \<open>
  An entry of the \<open>EventTarget\<close>'s listener list: the event type, the handler (named by a
  number, the identity of the function object), the \<open>once\<close> option and the
  \<open>AbortController\<close> whose signal it was registered with.
\<close>

record targetListener =
  listenerType :: string
  callback :: nat
  onceOption :: bool
  controller :: nat

text \<open>\<open>EventListenerRecord\<close> of types.ts; \<open>remove\<close> aborts the named controller.\<close>

record eventListenerRecord =
  eventName :: string
  removeAborts :: nat

record eventBus =
  busId :: string
  targetListeners :: "targetListener list"
  activeListeners :: "eventListenerRecord list"
  controllersMade :: nat

definition newEventBus :: "string \<Rightarrow> eventBus" where
  "newEventBus description =
     \<lparr> busId = description, targetListeners = [], activeListeners = [], controllersMade = 0 \<rparr>"

text \<open>
  \<open>addEventListener\<close> of the host: a listener with the type and callback of one already
  in the list is not added a second time.
\<close>

definition addEventListener :: "string \<Rightarrow> nat \<Rightarrow> bool \<Rightarrow> nat \<Rightarrow> targetListener list \<Rightarrow> targetListener list" where
  "addEventListener type handler isOnce ctrl ls =
     (if filter (\<lambda>l. listenerType l = type \<and> callback l = handler) ls = []
      then ls @ [\<lparr> listenerType = type, callback = handler, onceOption = isOnce, controller = ctrl \<rparr>]
      else ls)"

text \<open>\<open>on\<close> and \<open>once\<close>: register with a fresh controller and push the record.\<close>

definition on :: "string \<Rightarrow> nat \<Rightarrow> eventBus \<Rightarrow> eventBus" where
  "on type listener bus =
     bus \<lparr> targetListeners := addEventListener type listener False (controllersMade bus) (targetListeners bus),
           activeListeners := activeListeners bus @ [\<lparr> eventName = type, removeAborts = controllersMade bus \<rparr>],
           controllersMade := Suc (controllersMade bus) \<rparr>"

definition once :: "string \<Rightarrow> nat \<Rightarrow> eventBus \<Rightarrow> eventBus" where
  "once type listener bus =
     bus \<lparr> targetListeners := addEventListener type listener True (controllersMade bus) (targetListeners bus),
           activeListeners := activeListeners bus @ [\<lparr> eventName = type, removeAborts = controllersMade bus \<rparr>],
           controllersMade := Suc (controllersMade bus) \<rparr>"

text \<open>Aborting a controller takes its listener off the event target.\<close>

definition abortController :: "nat \<Rightarrow> eventBus \<Rightarrow> eventBus" where
  "abortController ctrl bus = bus \<lparr> targetListeners := filter (\<lambda>l. controller l \<noteq> ctrl) (targetListeners bus) \<rparr>"

text \<open>
  \<open>remove(type)\<close>, named \<open>removeListener\<close> here:
  \<open>activeListeners.filter(...)[0].remove()\<close>. With no record of the type, \<open>[0]\<close> is
  \<open>undefined\<close> and the call throws. The record itself stays in \<open>activeListeners\<close>: the
  source never takes it out.
\<close>

definition removeListener :: "string \<Rightarrow> eventBus \<Rightarrow> error + eventBus" where
  "removeListener type bus =
     (case filter (\<lambda>l. eventName l = type) (activeListeners bus) of
        [] \<Rightarrow> Inl TypeError
      | l # _ \<Rightarrow> Inr (abortController (removeAborts l) bus))"

text \<open>\<open>validateEventDispatch\<close>: \<open>True\<close> when it throws.\<close>

definition validateEventDispatch :: "string \<Rightarrow> eventBus \<Rightarrow> bool" where
  "validateEventDispatch type bus = (filter (\<lambda>l. eventName l = type) (activeListeners bus) = [])"

text \<open>
  \<open>dispatchEvent\<close> of the host: the handlers of the type run in registration order, and
  a \<open>once\<close> listener leaves the list. What a handler does is outside the model; an
  exception of a handler is reported by the host and does not leave \<open>dispatchEvent\<close>.
\<close>

definition dispatchEvent :: "string \<Rightarrow> eventBus \<Rightarrow> nat list \<times> eventBus" where
  "dispatchEvent type bus =
     (map callback (filter (\<lambda>l. listenerType l = type) (targetListeners bus)),
      bus \<lparr> targetListeners := filter (\<lambda>l. \<not> (listenerType l = type \<and> onceOption l)) (targetListeners bus) \<rparr>)"

text \<open>
  \<open>emit\<close>: whether an error was logged (the contract violation of the \<open>catch\<close>), the
  handlers invoked, and the bus afterwards. The \<open>detail\<close> is handed to the handlers
  unchanged and plays no part here.
\<close>

record emitResult =
  reported :: bool
  invoked :: "nat list"

definition emit :: "string \<Rightarrow> eventBus \<Rightarrow> emitResult \<times> eventBus" where
  "emit type bus =
     (if validateEventDispatch type bus then (\<lparr> reported = True, invoked = [] \<rparr>, bus)
      else (let (handlers, bus') = dispatchEvent type bus
            in (\<lparr> reported = False, invoked = handlers \<rparr>, bus')))"

section \<open>The scheduling loop (eventBus.ts, class EventOrchestrator)\<close>

text \<open>
  The orchestrator: its \<open>EventBusRecord\<close>s (each bus object is held by its record), its
  queue and its abort flag.
\<close>

record orchestrator =
  eventBuses :: "(string \<times> eventBus) list"
  eventQueue :: "queueItem list"
  abortCommand :: bool

text \<open>What one call of \<open>processNextQueueItem\<close> did.\<close>

datatype dispatch =
    NothingSelected
  | NoBus queueItem
  | Published queueItem emitResult

text \<open>The bus object of the first matching record is the one that changes.\<close>

fun updateFirstBus :: "string \<Rightarrow> eventBus \<Rightarrow> (string \<times> eventBus) list \<Rightarrow> (string \<times> eventBus) list" where
  "updateFirstBus name bus [] = []"
| "updateFirstBus name bus (r # rs) =
     (if fst r = name then (fst r, bus) # rs else r # updateFirstBus name bus rs)"

definition processNextQueueItem :: "int \<Rightarrow> orchestrator \<Rightarrow> orchestrator \<times> dispatch" where
  "processNextQueueItem currentTime orch =
     (case getPrioritisedEventFromQueue currentTime (eventQueue orch) of
        (None, q) \<Rightarrow> (orch \<lparr> eventQueue := q \<rparr>, NothingSelected)
      | (Some nextEvent, q) \<Rightarrow>
          (case filter (\<lambda>b. fst b = eventBusId nextEvent) (eventBuses orch) of
             [] \<Rightarrow> (orch \<lparr> eventQueue := q \<rparr>, NoBus nextEvent)
           | b # _ \<Rightarrow>
               (let (res, bus') = emit (eventId nextEvent) (snd b)
                in (orch \<lparr> eventQueue := q,
                           eventBuses := updateFirstBus (eventBusId nextEvent) bus' (eventBuses orch) \<rparr>,
                    Published nextEvent res))))"

text \<open>
  One call of the closure \<open>processQueue\<close> of \<open>run\<close>, at the time \<open>currentTime\<close>: the
  orchestrator afterwards, what was dispatched (at most one entry), and how many times
  it called \<open>requestAnimationFrame(processQueue)\<close>. Handlers are outside the model, so
  within a call the queue and the abort flag change only by what the loop itself does.
\<close>

definition processQueue :: "int \<Rightarrow> orchestrator \<Rightarrow> orchestrator \<times> dispatch list \<times> nat" where
  "processQueue currentTime orch =
     (if abortCommand orch then (orch, [], 0)
      else if eventQueue orch \<noteq> [] then
        (let (orch', d) = processNextQueueItem currentTime orch
         in (orch', [d],
             (if eventQueue orch' \<noteq> [] then 1 else 0) + (if \<not> abortCommand orch' then 1 else 0)))
      else (orch, [], 1))"

text \<open>
  One frame of the host. \<open>requestAnimationFrame\<close> runs a callback in the next frame: the
  callbacks of a frame are those registered before it began, and a callback registered
  while the frame runs waits for the following one. \<open>runFrame t n\<close> runs the \<open>n\<close> pending
  calls of \<open>processQueue\<close> and returns the number of calls pending for the next frame.
\<close>

fun runFrame :: "int \<Rightarrow> nat \<Rightarrow> orchestrator \<Rightarrow> orchestrator \<times> dispatch list \<times> nat" where
  "runFrame currentTime 0 orch = (orch, [], 0)"
| "runFrame currentTime (Suc n) orch =
     (let (orch1, ds1, r1) = processQueue currentTime orch;
          (orch2, ds2, r2) = runFrame currentTime n orch1
      in (orch2, ds1 @ ds2, r1 + r2))"

text \<open>The items a list of dispatch records selected from the queue.\<close>

fun selectedItems :: "dispatch list \<Rightarrow> queueItem list" where
  "selectedItems [] = []"
| "selectedItems (NothingSelected # ds) = selectedItems ds"
| "selectedItems (NoBus e # ds) = e # selectedItems ds"
| "selectedItems (Published e r # ds) = e # selectedItems ds"

section \<open>Shared state and navigation (stateManager.ts, navigationManager.ts)\<close>

text \<open>
  The part of the running application the three managers share: the global store, the
  queue of the orchestrator they were constructed with, the registered pages and views
  (by component id), and two logs that make effects visible: the events the managers
  emit on their own buses (bus, event, detail) and the messages the modelled functions
  pass to \<open>log.error\<close>. Store subscribers and the handlers of emitted events are outside
  the model, and so is what \<open>EventBus.emit\<close> itself reports for an event without
  listeners.
\<close>

record world =
  store :: "string \<rightharpoonup> val"
  pending :: "queueItem list"
  pages :: "string set"
  views :: "string set"
  emitted :: "(string \<times> string \<times> detail) list"
  errorLog :: "string list"

definition setState :: "string \<Rightarrow> val \<Rightarrow> world \<Rightarrow> world" where
  "setState key v w = w \<lparr> store := (store w)(key \<mapsto> v) \<rparr>"

definition emitOn :: "string \<Rightarrow> string \<Rightarrow> detail \<Rightarrow> world \<Rightarrow> world" where
  "emitOn bus event d w = w \<lparr> emitted := emitted w @ [(bus, event, d)] \<rparr>"

definition logError :: "string \<Rightarrow> world \<Rightarrow> world" where
  "logError msg w = w \<lparr> errorLog := errorLog w @ [msg] \<rparr>"

text \<open>JavaScript truthiness of a store value and of an optional id.\<close>

fun truthy :: "val option \<Rightarrow> bool" where
  "truthy None = False"
| "truthy (Some VNull) = False"
| "truthy (Some (VBool b)) = b"
| "truthy (Some (VStr s)) = (s \<noteq> [])"
| "truthy (Some (VNum n)) = (n \<noteq> 0)"

fun truthyId :: "string option \<Rightarrow> bool" where
  "truthyId None = False"
| "truthyId (Some s) = (s \<noteq> [])"

text \<open>
  \<open>navigateToPage\<close> and \<open>navigateToView\<close>: both branches only enqueue the request, so
  the promise they return always resolves. The result pairs the error the caller's
  \<open>await\<close> sees (never one) with the world afterwards. \<open>guid\<close> and \<open>now\<close> are what
  \<open>generateGUID()\<close> and \<open>Date.now()\<close> give the new queue item.
\<close>

definition snapConfig :: transitionConfig where
  "snapConfig = \<lparr> ttype = ''snap'', duration = None \<rparr>"

definition navigateToPage ::
  "string \<Rightarrow> int \<Rightarrow> string \<Rightarrow> transitionConfig option \<Rightarrow> string option \<Rightarrow> world \<Rightarrow> error option \<times> world"
where
  "navigateToPage guid now pageId config prio w =
     (let cfg = (case config of None \<Rightarrow> snapConfig | Some c \<Rightarrow> c);
          p = (case prio of None \<Rightarrow> ''immediate'' | Some x \<Rightarrow> x)
      in if truthy (store w ''navigation.isTransitioning'')
         then (None, w \<lparr> pending := fst (enqueue guid now ''navigate-to-page'' ''navigation-manager''
                                            (Some p) (PageDetail pageId cfg) None None (pending w)) \<rparr>)
         else (None, w \<lparr> pending := fst (enqueue guid now ''navigate-to-page'' ''navigation-manager''
                                            (Some p) (PageDetail pageId cfg) None None (pending w)) \<rparr>))"

definition navigateToView ::
  "string \<Rightarrow> int \<Rightarrow> string \<Rightarrow> transitionConfig option \<Rightarrow> string option \<Rightarrow> world \<Rightarrow> error option \<times> world"
where
  "navigateToView guid now viewId config prio w =
     (let cfg = (case config of None \<Rightarrow> snapConfig | Some c \<Rightarrow> c);
          p = (case prio of None \<Rightarrow> ''immediate'' | Some x \<Rightarrow> x)
      in if truthy (store w ''navigation.isTransitioning'')
         then (None, w \<lparr> pending := fst (enqueue guid now ''navigate-to-view'' ''navigation-manager''
                                            (Some p) (ViewDetail viewId cfg) None None (pending w)) \<rparr>)
         else (None, w \<lparr> pending := fst (enqueue guid now ''navigate-to-view'' ''navigation-manager''
                                            (Some p) (ViewDetail viewId cfg) None None (pending w)) \<rparr>))"

text \<open>
  \<open>performPageTransition\<close> and \<open>performViewTransition\<close> drive the animation protocol on
  the host elements. The elements are outside the model; what remains is whether the
  protocol throws: \<open>anim\<close> is \<open>Some e\<close> when it throws \<open>e\<close> and \<open>None\<close> when it completes.
\<close>

definition performPageTransition :: "error option \<Rightarrow> string \<Rightarrow> transitionConfig \<Rightarrow> world \<Rightarrow> error + world" where
  "performPageTransition anim targetPageId config w = (case anim of Some e \<Rightarrow> Inl e | None \<Rightarrow> Inr w)"

definition performViewTransition :: "error option \<Rightarrow> string \<Rightarrow> transitionConfig \<Rightarrow> world \<Rightarrow> error + world" where
  "performViewTransition anim targetViewId config w = (case anim of Some e \<Rightarrow> Inl e | None \<Rightarrow> Inr w)"

text \<open>
  \<open>performPageNavigationInternal\<close>: the error the returned promise rejects with, if any,
  and the world afterwards (changes made before a throw stay). The \<open>finally\<close> block runs
  on both exits of the \<open>try\<close>.
\<close>

definition performPageNavigationInternal ::
  "error option \<Rightarrow> string \<Rightarrow> transitionConfig \<Rightarrow> world \<Rightarrow> error option \<times> world"
where
  "performPageNavigationInternal anim pageId config w =
     (if pageId \<notin> pages w then (Some (NotFound pageId), w)
      else if store w ''navigation.currentPageId'' = Some (VStr pageId) then (None, w)
      else
        (let previousPageId = store w ''navigation.currentPageId'';
             w1 = setState ''navigation.isTransitioning'' (VBool True) w
         in case performPageTransition anim pageId config w1 of
              Inr w2 \<Rightarrow>
                (let w3 = setState ''navigation.currentPageId'' (VStr pageId) w2;
                     w4 = setState ''navigation.currentViewId'' VNull w3;
                     w5 = emitOn ''navigation-manager'' ''page-changed'' (ChangedDetail pageId previousPageId) w4
                 in (None, setState ''navigation.isTransitioning'' (VBool False) w5))
            | Inl err \<Rightarrow> (Some err, setState ''navigation.isTransitioning'' (VBool False) w1)))"

text \<open>\<open>performViewNavigationInternal\<close>: as above, with the \<open>catch\<close> that logs and rethrows.\<close>

definition performViewNavigationInternal ::
  "error option \<Rightarrow> string \<Rightarrow> transitionConfig \<Rightarrow> world \<Rightarrow> error option \<times> world"
where
  "performViewNavigationInternal anim viewId config w =
     (if viewId \<notin> views w then (Some (NotFound viewId), w)
      else if store w ''navigation.currentViewId'' = Some (VStr viewId)
      then (None, emitOn ''navigation-manager'' ''view-re-entered'' (ReEnteredDetail viewId) w)
      else
        (let previousViewId = store w ''navigation.currentViewId'';
             w1 = setState ''navigation.isTransitioning'' (VBool True) w
         in case performViewTransition anim viewId config w1 of
              Inr w2 \<Rightarrow>
                (let w3 = setState ''navigation.currentViewId'' (VStr viewId) w2;
                     w4 = emitOn ''navigation-manager'' ''view-changed'' (ChangedDetail viewId previousViewId) w3
                 in (None, setState ''navigation.isTransitioning'' (VBool False) w4))
            | Inl err \<Rightarrow>
                (let w2 = logError (''Navigation to '' @ viewId @ '' failed:'') w1
                 in (Some err, setState ''navigation.isTransitioning'' (VBool False) w2))))"

text \<open>
  The listeners that \<open>setupEventListeners\<close> puts on the bus \<open>navigation-manager\<close> for
  the two request events: each calls the internal function with the \<open>pageId\<close> or
  \<open>viewId\<close> and \<open>config\<close> of the detail and drops the promise, so a rejection reaches
  no caller. A detail without the id reads \<open>undefined\<close>, which is no registered id.
\<close>

definition navigationListener :: "error option \<Rightarrow> queueItem \<Rightarrow> world \<Rightarrow> world" where
  "navigationListener anim e w =
     (if eventId e = ''navigate-to-page'' then
        (case params e of PageDetail pageId config \<Rightarrow> snd (performPageNavigationInternal anim pageId config w)
                        | _ \<Rightarrow> w)
      else if eventId e = ''navigate-to-view'' then
        (case params e of ViewDetail viewId config \<Rightarrow> snd (performViewNavigationInternal anim viewId config w)
                        | _ \<Rightarrow> w)
      else w)"

section \<open>The idle machine (screensaverManager.ts)\<close>

text \<open>
  \<open>ScreensaverConfig\<close> after registration (the defaults filled in). The view is kept by
  its component id; the callbacks are outside the model and are taken to return
  normally.
\<close>

record screensaverConfig =
  timeoutSeconds :: int
  ssView :: string
  ssTransitionConfig :: "transitionConfig option"
  ssExitBehavior :: string
  ssStartingViewId :: "string option"

text \<open>The manager's fields; a timer field is \<open>True\<close> while a timer is armed.\<close>

record screensaver =
  ssConfig :: "screensaverConfig option"
  activityTimer :: bool
  rebootCheckInterval :: bool
  isScreensaverActive :: bool
  ssLastActiveViewId :: "string option"

definition resetActivityTimer :: "screensaver \<Rightarrow> screensaver" where
  "resetActivityTimer sc = (case ssConfig sc of None \<Rightarrow> sc | Some c \<Rightarrow> sc \<lparr> activityTimer := True \<rparr>)"

definition stopRebootCheckInterval :: "screensaver \<Rightarrow> screensaver" where
  "stopRebootCheckInterval sc = sc \<lparr> rebootCheckInterval := False \<rparr>"

text \<open>The target of an exit, shared in shape by both managers.\<close>

definition exitTarget :: "string \<Rightarrow> string option \<Rightarrow> string option \<Rightarrow> string option" where
  "exitTarget exitBehavior lastActive starting =
     (if exitBehavior = ''return'' \<and> truthyId lastActive then lastActive
      else if exitBehavior = ''reset'' \<and> truthyId starting then starting
      else None)"

text \<open>
  \<open>handleScreensaverExit\<close>. The \<open>try\<close> awaits \<open>navigateToView\<close>; the \<open>catch\<close> is the
  branch for an error of that call.
\<close>

definition handleScreensaverExit :: "string \<Rightarrow> int \<Rightarrow> screensaver \<Rightarrow> world \<Rightarrow> screensaver \<times> world" where
  "handleScreensaverExit guid now sc w =
     (case ssConfig sc of
        None \<Rightarrow> (sc, w)
      | Some cfg \<Rightarrow>
          if \<not> isScreensaverActive sc then (sc, w)
          else
            (let sc1 = stopRebootCheckInterval sc;
                 sc2 = sc1 \<lparr> isScreensaverActive := False \<rparr>;
                 w1 = setState ''screensaver.isActive'' (VBool False) w;
                 targetViewId = exitTarget (ssExitBehavior cfg) (ssLastActiveViewId sc2) (ssStartingViewId cfg)
             in if truthyId targetViewId then
                  (case navigateToView guid now (the targetViewId) (ssTransitionConfig cfg) None w1 of
                     (None, w2) \<Rightarrow>
                       (resetActivityTimer sc2,
                        emitOn ''screensaver-manager'' ''screensaver-deactivated''
                          (DeactivatedDetail (the targetViewId) (ssExitBehavior cfg)) w2)
                   | (Some err, w2) \<Rightarrow>
                       (sc2 \<lparr> isScreensaverActive := True \<rparr>,
                        setState ''screensaver.isActive'' (VBool True)
                          (logError ''Failed to exit screensaver:'' w2)))
                else (resetActivityTimer sc2, w1)))"

section \<open>The gesture machine (settingsManager.ts)\<close>

text \<open>\<open>SettingsConfig\<close> after registration; the view is kept by its component id.\<close>

record settingsConfig =
  stView :: string
  stTransitionConfig :: "transitionConfig option"
  stExitBehavior :: string
  stStartingViewId :: "string option"
  cornerTouchRadius :: int
  touchTimeout :: int

text \<open>The manager's fields, \<open>touchSequenceState\<close> flattened into \<open>step\<close> and \<open>lastTouchTime\<close>.\<close>

record settings =
  stConfig :: "settingsConfig option"
  isSettingsActive :: bool
  stLastActiveViewId :: "string option"
  step :: nat
  lastTouchTime :: int
  lastEventTime :: int










text \<open>\<open>handleSettingsExit\<close>, the counterpart of \<open>handleScreensaverExit\<close>.\<close>

definition handleSettingsExit :: "string \<Rightarrow> int \<Rightarrow> settings \<Rightarrow> world \<Rightarrow> settings \<times> world" where
  "handleSettingsExit guid now s w =
     (case stConfig s of
        None \<Rightarrow> (s, w)
      | Some cfg \<Rightarrow>
          if \<not> isSettingsActive s then (s, w)
          else
            (let s1 = s \<lparr> isSettingsActive := False \<rparr>;
                 w1 = setState ''settings.isActive'' (VBool False) w;
                 targetViewId = exitTarget (stExitBehavior cfg) (stLastActiveViewId s1) (stStartingViewId cfg)
             in if truthyId targetViewId then
                  (case navigateToView guid now (the targetViewId) (stTransitionConfig cfg) None w1 of
                     (None, w2) \<Rightarrow>
                       (s1, emitOn ''settings-manager'' ''settings-deactivated''
                              (DeactivatedDetail (the targetViewId) (stExitBehavior cfg)) w2)
                   | (Some err, w2) \<Rightarrow>
                       (s1 \<lparr> isSettingsActive := True \<rparr>,
                        setState ''settings.isActive'' (VBool True)
                          (logError ''Failed to exit settings:'' w2)))
                else (s1, w1)))"


section \<open>Example states\<close>

text \<open>
  A queue of five items on a bus \<open>ui\<close>: a default item, a scheduled item due at 20, and
  three immediate items, two of them with the same \<open>scheduleFor\<close>.
\<close>

definition exampleQueue :: "queueItem list" where
  "exampleQueue =
     [ApplicationEventQueueItem ''g1'' 1 ''ui'' ''tap'' ''default'' None None NoDetail,
      ApplicationEventQueueItem ''g2'' 2 ''ui'' ''tap'' ''scheduled'' (Some 20) None NoDetail,
      ApplicationEventQueueItem ''g3'' 5 ''ui'' ''tap'' ''immediate'' None None NoDetail,
      ApplicationEventQueueItem ''g4'' 6 ''ui'' ''tap'' ''immediate'' (Some 5) None NoDetail,
      ApplicationEventQueueItem ''g5'' 7 ''ui'' ''tap'' ''immediate'' (Some 4) None NoDetail]"

text \<open>An orchestrator with that queue and one bus \<open>ui\<close> with a listener for \<open>tap\<close>.\<close>

definition exampleOrchestrator :: orchestrator where
  "exampleOrchestrator =
     \<lparr> eventBuses = [(''ui'', on ''tap'' 0 (newEventBus ''ui''))],
       eventQueue = exampleQueue, abortCommand = False \<rparr>"

text \<open>
  A world at rest on page \<open>p1\<close> and view \<open>home\<close>, with two pages and three views
  registered and nothing queued.
\<close>

definition exampleWorld :: world where
  "exampleWorld =
     \<lparr> store = [''navigation.currentPageId'' \<mapsto> VStr ''p1'',
                ''navigation.currentViewId'' \<mapsto> VStr ''home'',
                ''navigation.isTransitioning'' \<mapsto> VBool False],
       pending = [],
       pages = {''p1'', ''p2''},
       views = {''home'', ''menu'', ''saver''},
       emitted = [],
       errorLog = [] \<rparr>"

text \<open>
  The gesture machine after registration, with the default radius and timeout, and the
  idle machine while its screensaver is showing.
\<close>

definition exampleSettingsConfig :: settingsConfig where
  "exampleSettingsConfig =
     \<lparr> stView = ''settings'',
       stTransitionConfig = Some \<lparr> ttype = ''fade'', duration = Some 500 \<rparr>,
       stExitBehavior = ''reset'', stStartingViewId = Some ''home'',
       cornerTouchRadius = 100, touchTimeout = 3000 \<rparr>"

definition exampleSettings :: settings where
  "exampleSettings =
     \<lparr> stConfig = Some exampleSettingsConfig,
       isSettingsActive = False, stLastActiveViewId = None,
       step = 0, lastTouchTime = 0, lastEventTime = 0 \<rparr>"

definition exampleScreensaverConfig :: screensaverConfig where
  "exampleScreensaverConfig =
     \<lparr> timeoutSeconds = 60, ssView = ''saver'',
       ssTransitionConfig = Some snapConfig,
       ssExitBehavior = ''reset'', ssStartingViewId = Some ''start'' \<rparr>"

definition exampleScreensaver :: screensaver where
  "exampleScreensaver =
     \<lparr> ssConfig = Some exampleScreensaverConfig,
       activityTimer = False, rebootCheckInterval = True,
       isScreensaverActive = True, ssLastActiveViewId = Some ''home'' \<rparr>"

text \<open>
  The world while the screensaver is showing, and the gesture machine while the settings
  view is showing.
\<close>

definition exampleIdleWorld :: world where
  "exampleIdleWorld =
     setState ''screensaver.isActive'' (VBool True)
       (setState ''navigation.currentViewId'' (VStr ''saver'') exampleWorld)"

definition exampleActiveSettings :: settings where
  "exampleActiveSettings = exampleSettings \<lparr> isSettingsActive := True, stLastActiveViewId := Some ''home'' \<rparr>"

definition exampleSettingsWorld :: world where
  "exampleSettingsWorld =
     setState ''settings.isActive'' (VBool True)
       (setState ''navigation.currentViewId'' (VStr ''settings'')
          (exampleWorld \<lparr> views := {''home'', ''menu'', ''saver'', ''settings''} \<rparr>))"

section \<open>Properties of the shared world\<close>

text \<open>What writing the store, emitting and logging change, field by field.\<close>

lemma world_facts:
  "store (setState k v w) = (store w)(k \<mapsto> v)"
  "pending (setState k v w) = pending w"
  "emitted (setState k v w) = emitted w"
  "errorLog (setState k v w) = errorLog w"
  "views (setState k v w) = views w"
  "pages (setState k v w) = pages w"
  "store (emitOn b e d w) = store w"
  "pending (emitOn b e d w) = pending w"
  "emitted (emitOn b e d w) = emitted w @ [(b, e, d)]"
  "errorLog (emitOn b e d w) = errorLog w"
  "views (emitOn b e d w) = views w"
  "pages (emitOn b e d w) = pages w"
  "store (logError m w) = store w"
  "pending (logError m w) = pending w"
  "emitted (logError m w) = emitted w"
  "errorLog (logError m w) = errorLog w @ [m]"
  "views (logError m w) = views w"
  "pages (logError m w) = pages w"
  by (simp_all add: setState_def emitOn_def logError_def)

section \<open>Properties of the queue\<close>

lemma sortCompare_le_iff:
  assumes "priority a \<notin> set inheritedProperties" and "priority b \<notin> set inheritedProperties"
  shows "sortCompare a b \<le> 0 \<longleftrightarrow>
     classNumber (priority a) < classNumber (priority b)
     \<or> (classNumber (priority a) = classNumber (priority b) \<and> scheduleFor a \<le> scheduleFor b)"
  using assms by (auto simp: sortCompare_def compareEvents_def priorityOrder_def Let_def)

lemma sortCompare_less_iff:
  assumes "priority a \<notin> set inheritedProperties" and "priority b \<notin> set inheritedProperties"
  shows "sortCompare a b < 0 \<longleftrightarrow>
     classNumber (priority a) < classNumber (priority b)
     \<or> (classNumber (priority a) = classNumber (priority b) \<and> scheduleFor a < scheduleFor b)"
  using assms by (auto simp: sortCompare_def compareEvents_def priorityOrder_def Let_def)

lemma placeEvent_not_Nil: "placeEvent x ys \<noteq> []"
  by (cases ys) auto

lemma sortEvents_Nil_iff: "sortEvents xs = [] \<longleftrightarrow> xs = []"
  by (cases xs) (auto simp: placeEvent_not_Nil)

lemma hd_placeEvent:
  "hd (placeEvent x ys) = (if ys = [] \<or> sortCompare x (hd ys) \<le> 0 then x else hd ys)"
  by (cases ys) auto

lemma set_placeEvent: "set (placeEvent x ys) = insert x (set ys)"
  by (induction ys) auto

lemma set_sortEvents: "set (sortEvents xs) = set xs"
  by (induction xs) (auto simp: set_placeEvent)

lemma hd_sortEvents_split:
  "xs \<noteq> [] \<Longrightarrow> \<forall>x\<in>set xs. priority x \<notin> set inheritedProperties \<Longrightarrow>
     \<exists>pre post. xs = pre @ hd (sortEvents xs) # post
        \<and> (\<forall>y\<in>set pre. sortCompare (hd (sortEvents xs)) y < 0)
        \<and> (\<forall>y\<in>set post. sortCompare (hd (sortEvents xs)) y \<le> 0)"
proof (induction xs)
  case Nil
  then show ?case by simp
next
  case (Cons x xs)
  show ?case
  proof (cases "xs = []")
    case True
    then have "x # xs = [] @ hd (sortEvents (x # xs)) # []" by simp
    then show ?thesis by (metis empty_iff list.set(1))
  next
    case False
    let ?m = "hd (sortEvents xs)"
    have plain: "\<forall>y\<in>set xs. priority y \<notin> set inheritedProperties"
      and px: "priority x \<notin> set inheritedProperties"
      using Cons.prems(2) by simp_all
    from Cons.IH [OF False plain] obtain pre post where
      split: "xs = pre @ ?m # post"
      and before: "\<forall>y\<in>set pre. sortCompare ?m y < 0"
      and after: "\<forall>y\<in>set post. sortCompare ?m y \<le> 0"
      by blast
    have nonempty: "sortEvents xs \<noteq> []" using False by (simp add: sortEvents_Nil_iff)
    have "?m \<in> set xs" using split by (metis in_set_conv_decomp)
    then have pm: "priority ?m \<notin> set inheritedProperties" using plain by blast
    show ?thesis
    proof (cases "sortCompare x ?m \<le> 0")
      case True
      then have h: "hd (sortEvents (x # xs)) = x" by (simp add: hd_placeEvent)
      have "\<forall>y\<in>set xs. sortCompare x y \<le> 0"
      proof
        fix y assume y: "y \<in> set xs"
        then have py: "priority y \<notin> set inheritedProperties" using plain by blast
        from y have "y \<in> set pre \<or> y = ?m \<or> y \<in> set post"
          using split by (metis Un_iff set_ConsD set_append)
        then have "y = ?m \<or> sortCompare ?m y \<le> 0" using before after by fastforce
        then show "sortCompare x y \<le> 0"
          using True sortCompare_le_iff [OF px pm] sortCompare_le_iff [OF pm py] sortCompare_le_iff [OF px py]
          by auto
      qed
      moreover have "x # xs = [] @ x # xs" by simp
      ultimately show ?thesis unfolding h by (metis empty_iff list.set(1))
    next
      case False
      then have h: "hd (sortEvents (x # xs)) = ?m" using nonempty by (simp add: hd_placeEvent)
      have "sortCompare ?m x < 0"
        using False sortCompare_le_iff [OF px pm] sortCompare_less_iff [OF pm px] by auto
      then have "\<forall>y\<in>set (x # pre). sortCompare ?m y < 0" using before by simp
      moreover have "x # xs = (x # pre) @ ?m # post" using split by simp
      ultimately show ?thesis unfolding h using after by blast
    qed
  qed
qed

lemma sortCompare_irrefl: "\<not> sortCompare e e < 0"
  by (simp add: sortCompare_def compareEvents_def)

lemma sortCompare_asym: "sortCompare a b < 0 \<Longrightarrow> \<not> sortCompare b a \<le> 0"
  by (cases "priorityOrder (priority a)"; cases "priorityOrder (priority b)")
     (auto simp: sortCompare_def compareEvents_def Let_def split: if_splits)

text \<open>What a selection always does, whatever the priorities are.\<close>

lemma selection_member:
  assumes "getPrioritisedEventFromQueue now q = (Some e, q')"
  shows "e \<in> set q" and "isAvailable now e" and "q' = remove1 e q"
proof -
  from assms have ne: "filter (isAvailable now) q \<noteq> []"
    and e: "e = hd (sortEvents (filter (isAvailable now) q))" and q': "q' = remove1 e q"
    by (auto simp: getPrioritisedEventFromQueue_def Let_def split: if_splits)
  from ne have "sortEvents (filter (isAvailable now) q) \<noteq> []" by (simp add: sortEvents_Nil_iff)
  then have "e \<in> set (sortEvents (filter (isAvailable now) q))" using e by simp
  then have "e \<in> set (filter (isAvailable now) q)" by (simp add: set_sortEvents)
  then show "e \<in> set q" and "isAvailable now e" by simp_all
  show "q' = remove1 e q" by (rule q')
qed

lemma selection_none:
  "filter (isAvailable now) q = [] \<Longrightarrow> getPrioritisedEventFromQueue now q = (None, q)"
  by (simp add: getPrioritisedEventFromQueue_def)

lemma selection_some:
  "filter (isAvailable now) q \<noteq> [] \<Longrightarrow> \<exists>e. getPrioritisedEventFromQueue now q = (Some e, remove1 e q)"
  by (simp add: getPrioritisedEventFromQueue_def Let_def)

lemma filter_split_at:
  "filter P q = a @ e # b \<Longrightarrow>
     \<exists>pre post. q = pre @ e # post \<and> filter P pre = a \<and> filter P post = b \<and> P e"
proof (induction q arbitrary: a)
  case Nil
  then show ?case by simp
next
  case (Cons x q)
  show ?case
  proof (cases "P x")
    case False
    with Cons.prems have "filter P q = a @ e # b" by simp
    from Cons.IH [OF this] obtain pre post where
      "q = pre @ e # post" "filter P pre = a" "filter P post = b" "P e" by blast
    with False have "x # q = (x # pre) @ e # post \<and> filter P (x # pre) = a \<and> filter P post = b \<and> P e"
      by simp
    then show ?thesis by blast
  next
    case True
    show ?thesis
    proof (cases a)
      case Nil
      with True Cons.prems have "x = e" "filter P q = b" by simp_all
      with True have "x # q = [] @ e # q \<and> filter P [] = a \<and> filter P q = b \<and> P e"
        using Nil by simp
      then show ?thesis by blast
    next
      case (Cons y a')
      with True Cons.prems have xy: "x = y" and rest: "filter P q = a' @ e # b" by simp_all
      from Cons.IH [OF rest] obtain pre post where
        "q = pre @ e # post" "filter P pre = a'" "filter P post = b" "P e" by blast
      with True xy Cons have "x # q = (x # pre) @ e # post \<and> filter P (x # pre) = a \<and> filter P post = b \<and> P e"
        by simp
      then show ?thesis by blast
    qed
  qed
qed

text \<open>
  What \<open>getPrioritisedEventFromQueue\<close> selects when some item is available and no
  priority names an inherited property: the queue splits around the selected item, which
  leaves the queue; every available item in front of it compares strictly greater and
  every available item behind it does not compare smaller.
\<close>

lemma selection_split:
  assumes "filter (isAvailable now) q \<noteq> []"
    and plain: "\<forall>x\<in>set q. priority x \<notin> set inheritedProperties"
  shows "\<exists>e pre post.
            getPrioritisedEventFromQueue now q = (Some e, pre @ post)
          \<and> q = pre @ e # post \<and> isAvailable now e
          \<and> (\<forall>x\<in>set pre. isAvailable now x \<longrightarrow> sortCompare e x < 0)
          \<and> (\<forall>x\<in>set post. isAvailable now x \<longrightarrow> sortCompare e x \<le> 0)"
proof -
  let ?av = "filter (isAvailable now) q"
  let ?e = "hd (sortEvents ?av)"
  have "\<forall>x\<in>set ?av. priority x \<notin> set inheritedProperties" using plain by simp
  from hd_sortEvents_split [OF assms(1) this] obtain a b where
    av: "?av = a @ ?e # b"
    and before: "\<forall>y\<in>set a. sortCompare ?e y < 0"
    and after: "\<forall>y\<in>set b. sortCompare ?e y \<le> 0"
    by blast
  from filter_split_at [OF av] obtain pre post where
    q: "q = pre @ ?e # post" and a: "filter (isAvailable now) pre = a"
    and b: "filter (isAvailable now) post = b" and e: "isAvailable now ?e"
    by blast
  have notin: "?e \<notin> set pre"
  proof
    assume "?e \<in> set pre"
    with e a have "?e \<in> set a" by auto
    with before show False using sortCompare_irrefl by blast
  qed
  have "remove1 ?e q = pre @ post"
    using q notin by (metis remove1.simps(2) remove1_append)
  then have sel: "getPrioritisedEventFromQueue now q = (Some ?e, pre @ post)"
    using assms(1) by (simp add: getPrioritisedEventFromQueue_def Let_def)
  have "\<forall>x\<in>set pre. isAvailable now x \<longrightarrow> sortCompare ?e x < 0"
    using before a by auto
  moreover have "\<forall>x\<in>set post. isAvailable now x \<longrightarrow> sortCompare ?e x \<le> 0"
    using after b by auto
  ultimately show ?thesis using sel q e by blast
qed

text \<open>The first minimum is unique: a queue position with that property is the selected one.\<close>

lemma selection_unique:
  assumes q: "q = pre @ e # post" and e: "isAvailable now e"
    and plain: "\<forall>x\<in>set q. priority x \<notin> set inheritedProperties"
    and before: "\<forall>x\<in>set pre. isAvailable now x \<longrightarrow> sortCompare e x < 0"
    and after: "\<forall>x\<in>set post. isAvailable now x \<longrightarrow> sortCompare e x \<le> 0"
  shows "getPrioritisedEventFromQueue now q = (Some e, pre @ post)"
proof -
  have "filter (isAvailable now) q \<noteq> []" using q e by simp
  from selection_split [OF this plain] obtain e' pre' post' where
    sel: "getPrioritisedEventFromQueue now q = (Some e', pre' @ post')"
    and q': "q = pre' @ e' # post'" and e': "isAvailable now e'"
    and before': "\<forall>x\<in>set pre'. isAvailable now x \<longrightarrow> sortCompare e' x < 0"
    and after': "\<forall>x\<in>set post'. isAvailable now x \<longrightarrow> sortCompare e' x \<le> 0"
    by blast
  from q q' have eq: "pre @ e # post = pre' @ e' # post'" by simp
  then consider (same) "pre = pre'" "e = e'" "post = post'"
    | (shorter) us where "pre' = pre @ e # us" "post = us @ e' # post'"
    | (longer) us where "pre = pre' @ e' # us" "post' = us @ e # post"
  proof -
    from eq obtain us where
      "(pre = pre' @ us \<and> us @ e # post = e' # post') \<or> (pre @ us = pre' \<and> e # post = us @ e' # post')"
      by (auto simp: append_eq_append_conv2)
    then show ?thesis
      using that by (cases us) (auto simp: Cons_eq_append_conv)
  qed
  then show ?thesis
  proof cases
    case same
    then show ?thesis using sel by simp
  next
    case shorter
    then have "sortCompare e' e < 0" using before' e by simp
    moreover have "sortCompare e e' \<le> 0" using shorter after e' by simp
    ultimately show ?thesis using sortCompare_asym by blast
  next
    case longer
    then have "sortCompare e e' < 0" using before e' by simp
    moreover have "sortCompare e' e \<le> 0" using longer after' e by simp
    ultimately show ?thesis using sortCompare_asym by blast
  qed
qed

subsection \<open>Claim C1: priority classes, eligibility time and enqueue order\<close>

text \<open>
  A priority that names an inherited property is no class: the item ties with every item
  of another priority. In front of an immediate item it is selected first.
\<close>

lemma inherited_priority_keeps_queue_order:
  "getPrioritisedEventFromQueue 10
     [ApplicationEventQueueItem ''g1'' 1 ''ui'' ''tap'' ''toString'' (Some 5) None NoDetail,
      ApplicationEventQueueItem ''g2'' 2 ''ui'' ''tap'' ''immediate'' (Some 9) None NoDetail]
   = (Some (ApplicationEventQueueItem ''g1'' 1 ''ui'' ''tap'' ''toString'' (Some 5) None NoDetail),
      [ApplicationEventQueueItem ''g2'' 2 ''ui'' ''tap'' ''immediate'' (Some 9) None NoDetail])"
  by (simp add: getPrioritisedEventFromQueue_def isAvailable_def ApplicationEventQueueItem_def
        sortCompare_def compareEvents_def priorityOrder_def inheritedProperties_def classNumber_def Let_def)

text \<open>
  C1. At a dispatch instant \<open>now\<close> with a queue \<open>q\<close> of items whose priorities are the
  four classes (or any other string that names no inherited property, which ranks as
  default): when no item is available the dispatcher selects nothing and the queue stays
  as it is. Otherwise it selects an available item \<open>e\<close> and takes exactly that item out
  of the queue, and \<open>e\<close> is the first best item: every available item enqueued before \<open>e\<close>
  is of a strictly lower class, or of the same class with a strictly later
  \<open>scheduleFor\<close>; every available item enqueued after \<open>e\<close> is of a lower class, or of the
  same class with the same or a later \<open>scheduleFor\<close>. So a higher class goes first
  whatever the enqueue times, within a class the earliest \<open>scheduleFor\<close> goes first, and
  equal \<open>scheduleFor\<close> values go in enqueue order. The classes are ordered scheduled,
  immediate, animation, default.
\<close>

theorem C1_priority_selection:
  assumes "\<forall>x\<in>set q. priority x \<notin> set inheritedProperties"
  shows
  "(if filter (isAvailable now) q = [] then getPrioritisedEventFromQueue now q = (None, q)
    else (\<exists>e pre post.
            getPrioritisedEventFromQueue now q = (Some e, pre @ post)
          \<and> q = pre @ e # post
          \<and> isAvailable now e
          \<and> (\<forall>x\<in>set pre. isAvailable now x \<longrightarrow>
                 classNumber (priority e) < classNumber (priority x)
               \<or> (classNumber (priority e) = classNumber (priority x) \<and> scheduleFor e < scheduleFor x))
          \<and> (\<forall>x\<in>set post. isAvailable now x \<longrightarrow>
                 classNumber (priority e) < classNumber (priority x)
               \<or> (classNumber (priority e) = classNumber (priority x) \<and> scheduleFor e \<le> scheduleFor x))))
   \<and> priorityOrder ''scheduled'' = Num 1 \<and> priorityOrder ''immediate'' = Num 2
   \<and> priorityOrder ''animation'' = Num 3 \<and> priorityOrder ''default'' = Num 4
   \<and> classNumber ''scheduled'' < classNumber ''immediate''
   \<and> classNumber ''immediate'' < classNumber ''animation''
   \<and> classNumber ''animation'' < classNumber ''default''"
proof -
  have ranks: "priorityOrder ''scheduled'' = Num 1 \<and> priorityOrder ''immediate'' = Num 2
      \<and> priorityOrder ''animation'' = Num 3 \<and> priorityOrder ''default'' = Num 4
      \<and> classNumber ''scheduled'' < classNumber ''immediate''
      \<and> classNumber ''immediate'' < classNumber ''animation''
      \<and> classNumber ''animation'' < classNumber ''default''"
    by (simp add: priorityOrder_def classNumber_def inheritedProperties_def)
  show ?thesis
  proof (cases "filter (isAvailable now) q = []")
    case True
    then show ?thesis using ranks by (simp add: getPrioritisedEventFromQueue_def)
  next
    case False
    from selection_split [OF False assms] obtain e pre post where
      sel: "getPrioritisedEventFromQueue now q = (Some e, pre @ post)"
      and q: "q = pre @ e # post" and e: "isAvailable now e"
      and before: "\<forall>x\<in>set pre. isAvailable now x \<longrightarrow> sortCompare e x < 0"
      and after: "\<forall>x\<in>set post. isAvailable now x \<longrightarrow> sortCompare e x \<le> 0"
      by blast
    have pe: "priority e \<notin> set inheritedProperties" using assms q by simp
    have pre_ok: "\<forall>x\<in>set pre. isAvailable now x \<longrightarrow>
                 classNumber (priority e) < classNumber (priority x)
               \<or> (classNumber (priority e) = classNumber (priority x) \<and> scheduleFor e < scheduleFor x)"
    proof (intro ballI impI)
      fix x assume x: "x \<in> set pre" and "isAvailable now x"
      then have "sortCompare e x < 0" using before by blast
      moreover have "priority x \<notin> set inheritedProperties" using assms q x by simp
      ultimately show "classNumber (priority e) < classNumber (priority x)
               \<or> (classNumber (priority e) = classNumber (priority x) \<and> scheduleFor e < scheduleFor x)"
        using sortCompare_less_iff [OF pe] by blast
    qed
    have post_ok: "\<forall>x\<in>set post. isAvailable now x \<longrightarrow>
                 classNumber (priority e) < classNumber (priority x)
               \<or> (classNumber (priority e) = classNumber (priority x) \<and> scheduleFor e \<le> scheduleFor x)"
    proof (intro ballI impI)
      fix x assume x: "x \<in> set post" and "isAvailable now x"
      then have "sortCompare e x \<le> 0" using after by blast
      moreover have "priority x \<notin> set inheritedProperties" using assms q x by simp
      ultimately show "classNumber (priority e) < classNumber (priority x)
               \<or> (classNumber (priority e) = classNumber (priority x) \<and> scheduleFor e \<le> scheduleFor x)"
        using sortCompare_le_iff [OF pe] by blast
    qed
    from sel q e pre_ok post_ok have
      "\<exists>e pre post.
            getPrioritisedEventFromQueue now q = (Some e, pre @ post)
          \<and> q = pre @ e # post
          \<and> isAvailable now e
          \<and> (\<forall>x\<in>set pre. isAvailable now x \<longrightarrow>
                 classNumber (priority e) < classNumber (priority x)
               \<or> (classNumber (priority e) = classNumber (priority x) \<and> scheduleFor e < scheduleFor x))
          \<and> (\<forall>x\<in>set post. isAvailable now x \<longrightarrow>
                 classNumber (priority e) < classNumber (priority x)
               \<or> (classNumber (priority e) = classNumber (priority x) \<and> scheduleFor e \<le> scheduleFor x))"
      by blast
    with False ranks show ?thesis by simp
  qed
qed

text \<open>The four classes name no inherited property, and the example queue holds only classes.\<close>

lemma classes_not_inherited:
  "''scheduled'' \<notin> set inheritedProperties" "''immediate'' \<notin> set inheritedProperties"
  "''animation'' \<notin> set inheritedProperties" "''default'' \<notin> set inheritedProperties"
  by (simp_all add: inheritedProperties_def)

lemma exampleQueue_plain: "\<forall>x\<in>set exampleQueue. priority x \<notin> set inheritedProperties"
  by (simp add: exampleQueue_def ApplicationEventQueueItem_def classes_not_inherited)

theorem C1_priority_selection_witness:
  "filter (isAvailable 10) exampleQueue \<noteq> []
   \<and> (\<exists>e pre post.
            getPrioritisedEventFromQueue 10 exampleQueue = (Some e, pre @ post)
          \<and> exampleQueue = pre @ e # post
          \<and> isAvailable 10 e
          \<and> (\<forall>x\<in>set pre. isAvailable 10 x \<longrightarrow>
                 classNumber (priority e) < classNumber (priority x)
               \<or> (classNumber (priority e) = classNumber (priority x) \<and> scheduleFor e < scheduleFor x))
          \<and> (\<forall>x\<in>set post. isAvailable 10 x \<longrightarrow>
                 classNumber (priority e) < classNumber (priority x)
               \<or> (classNumber (priority e) = classNumber (priority x) \<and> scheduleFor e \<le> scheduleFor x)))
   \<and> getPrioritisedEventFromQueue 10 exampleQueue
       = (Some (ApplicationEventQueueItem ''g5'' 7 ''ui'' ''tap'' ''immediate'' (Some 4) None NoDetail),
          [ApplicationEventQueueItem ''g1'' 1 ''ui'' ''tap'' ''default'' None None NoDetail,
           ApplicationEventQueueItem ''g2'' 2 ''ui'' ''tap'' ''scheduled'' (Some 20) None NoDetail,
           ApplicationEventQueueItem ''g3'' 5 ''ui'' ''tap'' ''immediate'' None None NoDetail,
           ApplicationEventQueueItem ''g4'' 6 ''ui'' ''tap'' ''immediate'' (Some 5) None NoDetail])"
proof -
  have ne: "filter (isAvailable 10) exampleQueue \<noteq> []"
    by (simp add: exampleQueue_def ApplicationEventQueueItem_def isAvailable_def)
  have sel: "getPrioritisedEventFromQueue 10 exampleQueue
       = (Some (ApplicationEventQueueItem ''g5'' 7 ''ui'' ''tap'' ''immediate'' (Some 4) None NoDetail),
          [ApplicationEventQueueItem ''g1'' 1 ''ui'' ''tap'' ''default'' None None NoDetail,
           ApplicationEventQueueItem ''g2'' 2 ''ui'' ''tap'' ''scheduled'' (Some 20) None NoDetail,
           ApplicationEventQueueItem ''g3'' 5 ''ui'' ''tap'' ''immediate'' None None NoDetail,
           ApplicationEventQueueItem ''g4'' 6 ''ui'' ''tap'' ''immediate'' (Some 5) None NoDetail])"
    by (simp add: exampleQueue_def ApplicationEventQueueItem_def getPrioritisedEventFromQueue_def
          isAvailable_def sortCompare_def compareEvents_def priorityOrder_def classNumber_def
          inheritedProperties_def Let_def)
  from C1_priority_selection [OF exampleQueue_plain, of 10] ne have
    "\<exists>e pre post.
            getPrioritisedEventFromQueue 10 exampleQueue = (Some e, pre @ post)
          \<and> exampleQueue = pre @ e # post
          \<and> isAvailable 10 e
          \<and> (\<forall>x\<in>set pre. isAvailable 10 x \<longrightarrow>
                 classNumber (priority e) < classNumber (priority x)
               \<or> (classNumber (priority e) = classNumber (priority x) \<and> scheduleFor e < scheduleFor x))
          \<and> (\<forall>x\<in>set post. isAvailable 10 x \<longrightarrow>
                 classNumber (priority e) < classNumber (priority x)
               \<or> (classNumber (priority e) = classNumber (priority x) \<and> scheduleFor e \<le> scheduleFor x))"
    by presburger
  with ne sel show ?thesis by blast
qed

subsection \<open>The scheduling loop, one call and one frame\<close>

lemma unavailable_item_kept:
  assumes "\<not> isAvailable now e" and "e \<in> set q"
  shows "fst (getPrioritisedEventFromQueue now q) \<noteq> Some e
       \<and> e \<in> set (snd (getPrioritisedEventFromQueue now q))"
proof (cases "getPrioritisedEventFromQueue now q")
  case (Pair sel q')
  show ?thesis
  proof (cases sel)
    case None
    with Pair have "q' = q"
      by (auto simp: getPrioritisedEventFromQueue_def Let_def split: if_splits)
    with Pair None assms show ?thesis by simp
  next
    case (Some e')
    with Pair have r: "getPrioritisedEventFromQueue now q = (Some e', q')" by simp
    from selection_member [OF r] have "isAvailable now e'" and q': "q' = remove1 e' q" by simp_all
    with assms(1) have "e \<noteq> e'" by auto
    with assms(2) q' have "e \<in> set q'" by simp
    with r \<open>e \<noteq> e'\<close> show ?thesis by simp
  qed
qed

text \<open>What the call does with the selected item.\<close>

lemma processNextQueueItem_dispatch:
  assumes "getPrioritisedEventFromQueue now (eventQueue orch) = (Some e, q')"
  shows "snd (processNextQueueItem now orch)
           = (case filter (\<lambda>b. fst b = eventBusId e) (eventBuses orch) of
                [] \<Rightarrow> NoBus e
              | b # _ \<Rightarrow> Published e (fst (emit (eventId e) (snd b))))"
  using assms by (simp add: processNextQueueItem_def Let_def split: list.splits prod.splits)

lemma processNextQueueItem_queue:
  "eventQueue (fst (processNextQueueItem now orch)) = snd (getPrioritisedEventFromQueue now (eventQueue orch))"
  by (auto simp: processNextQueueItem_def Let_def split: prod.splits option.splits list.splits)

lemma processNextQueueItem_selected:
  "selectedItems [snd (processNextQueueItem now orch)]
     = (case fst (getPrioritisedEventFromQueue now (eventQueue orch)) of None \<Rightarrow> [] | Some e \<Rightarrow> [e])"
  by (auto simp: processNextQueueItem_def Let_def split: prod.splits option.splits list.splits)

lemma processNextQueueItem_abort:
  "abortCommand (fst (processNextQueueItem now orch)) = abortCommand orch"
  by (auto simp: processNextQueueItem_def Let_def split: prod.splits option.splits list.splits)

lemma getPrioritised_Nil: "getPrioritisedEventFromQueue now [] = (None, [])"
  by (simp add: getPrioritisedEventFromQueue_def)

lemma processQueue_queue:
  "eventQueue (fst (processQueue now orch))
     = (if abortCommand orch then eventQueue orch
        else snd (getPrioritisedEventFromQueue now (eventQueue orch)))"
proof -
  obtain orch' d where step: "processNextQueueItem now orch = (orch', d)" by (cases "processNextQueueItem now orch")
  then have "eventQueue orch' = snd (getPrioritisedEventFromQueue now (eventQueue orch))"
    using processNextQueueItem_queue [of now orch] by simp
  then show ?thesis
    using step by (simp add: processQueue_def getPrioritised_Nil)
qed

lemma processQueue_selected:
  "selectedItems (fst (snd (processQueue now orch)))
     = (if abortCommand orch then []
        else (case fst (getPrioritisedEventFromQueue now (eventQueue orch)) of None \<Rightarrow> [] | Some e \<Rightarrow> [e]))"
proof -
  obtain orch' d where step: "processNextQueueItem now orch = (orch', d)" by (cases "processNextQueueItem now orch")
  then have "selectedItems [d]
      = (case fst (getPrioritisedEventFromQueue now (eventQueue orch)) of None \<Rightarrow> [] | Some e \<Rightarrow> [e])"
    using processNextQueueItem_selected [of now orch] by simp
  then show ?thesis
    using step by (simp add: processQueue_def getPrioritised_Nil)
qed

lemma processQueue_dispatch:
  assumes "\<not> abortCommand orch"
    and "getPrioritisedEventFromQueue now (eventQueue orch) = (Some e, q')"
  shows "fst (snd (processQueue now orch))
           = [case filter (\<lambda>b. fst b = eventBusId e) (eventBuses orch) of
                [] \<Rightarrow> NoBus e
              | b # _ \<Rightarrow> Published e (fst (emit (eventId e) (snd b)))]"
proof -
  obtain orch' d where step: "processNextQueueItem now orch = (orch', d)" by (cases "processNextQueueItem now orch")
  then have d: "d = (case filter (\<lambda>b. fst b = eventBusId e) (eventBuses orch) of
                [] \<Rightarrow> NoBus e
              | b # _ \<Rightarrow> Published e (fst (emit (eventId e) (snd b))))"
    using processNextQueueItem_dispatch [OF assms(2)] by simp
  have "eventQueue orch \<noteq> []" using selection_member(1) [OF assms(2)] by auto
  then show ?thesis using assms(1) step d by (simp add: processQueue_def)
qed

text \<open>With a record for the event, \<open>emit\<close> invokes the live handlers of the event, in order.\<close>

lemma emit_with_record:
  "filter (\<lambda>l. eventName l = type) (activeListeners bus) \<noteq> [] \<Longrightarrow>
     fst (emit type bus)
       = \<lparr> reported = False,
           invoked = map callback (filter (\<lambda>l. listenerType l = type) (targetListeners bus)) \<rparr>"
  by (simp add: emit_def validateEventDispatch_def dispatchEvent_def)

lemma processQueue_abort: "abortCommand (fst (processQueue now orch)) = abortCommand orch"
proof -
  obtain orch' d where step: "processNextQueueItem now orch = (orch', d)" by (cases "processNextQueueItem now orch")
  then have "abortCommand orch' = abortCommand orch"
    using processNextQueueItem_abort [of now orch] by simp
  then show ?thesis using step by (simp add: processQueue_def)
qed

lemma selectedItems_append: "selectedItems (ds @ ds') = selectedItems ds @ selectedItems ds'"
  by (induction ds rule: selectedItems.induct) auto

lemma runFrame_Suc:
  "runFrame now (Suc n) orch =
     (fst (runFrame now n (fst (processQueue now orch))),
      fst (snd (processQueue now orch)) @ fst (snd (runFrame now n (fst (processQueue now orch)))),
      snd (snd (processQueue now orch)) + snd (snd (runFrame now n (fst (processQueue now orch)))))"
  by (simp add: Let_def split: prod.splits)

lemma processQueue_keeps_unavailable:
  assumes "\<not> isAvailable now e" and "e \<in> set (eventQueue orch)"
  shows "e \<notin> set (selectedItems (fst (snd (processQueue now orch))))
       \<and> e \<in> set (eventQueue (fst (processQueue now orch)))"
  using unavailable_item_kept [OF assms] assms(2)
  by (auto simp: processQueue_queue processQueue_selected split: option.splits)

lemma runFrame_keeps_unavailable:
  "\<not> isAvailable now e \<Longrightarrow> e \<in> set (eventQueue orch) \<Longrightarrow>
     e \<notin> set (selectedItems (fst (snd (runFrame now n orch))))
   \<and> e \<in> set (eventQueue (fst (runFrame now n orch)))"
proof (induction n arbitrary: orch)
  case 0
  then show ?case by simp
next
  case (Suc n)
  from processQueue_keeps_unavailable [OF Suc.prems] have
    one: "e \<notin> set (selectedItems (fst (snd (processQueue now orch))))"
    and kept: "e \<in> set (eventQueue (fst (processQueue now orch)))"
    by simp_all
  from Suc.IH [OF Suc.prems(1) kept] one show ?case
    by (simp only: runFrame_Suc fst_conv snd_conv selectedItems_append set_append Un_iff) simp
qed

text \<open>A loop that is not aborted always has a call pending for the next frame.\<close>

lemma processQueue_reregisters:
  "\<not> abortCommand orch \<Longrightarrow> 0 < snd (snd (processQueue now orch))"
proof -
  assume a: "\<not> abortCommand orch"
  obtain orch' d where step: "processNextQueueItem now orch = (orch', d)" by (cases "processNextQueueItem now orch")
  then have "abortCommand orch' = abortCommand orch"
    using processNextQueueItem_abort [of now orch] by simp
  then show ?thesis using a step by (simp add: processQueue_def)
qed

lemma runFrame_keeps_running:
  "\<not> abortCommand orch \<Longrightarrow> 0 < snd (snd (runFrame now (Suc n) orch))"
  using processQueue_reregisters [of orch now]
  by (simp only: runFrame_Suc fst_conv snd_conv) simp

subsection \<open>Claim C5: a scheduled item waits for its time\<close>

text \<open>
  C5. Let \<open>e\<close> be a queued item of priority \<open>scheduled\<close>. In a frame at a time before
  \<open>scheduleFor e\<close>, however many calls of \<open>processQueue\<close> the frame runs, \<open>e\<close> is in no
  dispatch record of the frame and is still queued afterwards. At a time at or after
  \<open>scheduleFor e\<close>, with the loop not aborted and no priority in the queue naming an
  inherited property, if no other available item is ahead of \<open>e\<close> (the available
  scheduled items enqueued before it are due strictly later, those enqueued after it are
  not due earlier), the first call of \<open>processQueue\<close> in the frame takes \<open>e\<close> out of the
  queue and dispatches it: it publishes \<open>e\<close> on the first bus registered under the bus id
  of \<open>e\<close>, where \<open>emit\<close> invokes the live handlers of the event in registration order
  when the bus has a listener record for it; with no bus of that id the item is dropped.
  The frame's dispatch records begin with that of this call. A frame of a loop that is
  not aborted leaves a call pending for the next frame, so such a frame comes.
\<close>

theorem C5_scheduled_item:
  assumes "priority e = ''scheduled''" and "eventQueue orch = pre @ e # post"
  shows "(now < scheduleFor e \<longrightarrow>
            e \<notin> set (selectedItems (fst (snd (runFrame now n orch))))
          \<and> e \<in> set (eventQueue (fst (runFrame now n orch))))
       \<and> (scheduleFor e \<le> now \<and> \<not> abortCommand orch
          \<and> (\<forall>x\<in>set (pre @ post). priority x \<notin> set inheritedProperties)
          \<and> (\<forall>x\<in>set pre. isAvailable now x \<longrightarrow> priority x \<noteq> ''scheduled'' \<or> scheduleFor e < scheduleFor x)
          \<and> (\<forall>x\<in>set post. isAvailable now x \<longrightarrow> priority x \<noteq> ''scheduled'' \<or> scheduleFor e \<le> scheduleFor x)
          \<longrightarrow> eventQueue (fst (processQueue now orch)) = pre @ post
            \<and> (filter (\<lambda>b. fst b = eventBusId e) (eventBuses orch) = [] \<longrightarrow>
                 fst (snd (processQueue now orch)) = [NoBus e])
            \<and> (\<forall>b bs. filter (\<lambda>b. fst b = eventBusId e) (eventBuses orch) = b # bs \<longrightarrow>
                 fst (snd (processQueue now orch)) = [Published e (fst (emit (eventId e) (snd b)))]
               \<and> (filter (\<lambda>l. eventName l = eventId e) (activeListeners (snd b)) \<noteq> [] \<longrightarrow>
                    fst (snd (processQueue now orch))
                      = [Published e
                           \<lparr> reported = False,
                             invoked = map callback
                                         (filter (\<lambda>l. listenerType l = eventId e) (targetListeners (snd b))) \<rparr>]))
            \<and> (\<exists>ds. fst (snd (runFrame now (Suc n) orch)) = fst (snd (processQueue now orch)) @ ds))
       \<and> (\<not> abortCommand orch \<longrightarrow> 0 < snd (snd (runFrame now (Suc n) orch)))"
proof (intro conjI impI allI)
  assume "\<not> abortCommand orch"
  then show "0 < snd (snd (runFrame now (Suc n) orch))" by (rule runFrame_keeps_running)
next
  assume early: "now < scheduleFor e"
  then have "\<not> isAvailable now e" using assms(1) by (simp add: isAvailable_def)
  moreover have "e \<in> set (eventQueue orch)" using assms(2) by simp
  ultimately show "e \<notin> set (selectedItems (fst (snd (runFrame now n orch))))"
    and "e \<in> set (eventQueue (fst (runFrame now n orch)))"
    using runFrame_keeps_unavailable by blast+
next
  assume due: "scheduleFor e \<le> now \<and> \<not> abortCommand orch
          \<and> (\<forall>x\<in>set (pre @ post). priority x \<notin> set inheritedProperties)
          \<and> (\<forall>x\<in>set pre. isAvailable now x \<longrightarrow> priority x \<noteq> ''scheduled'' \<or> scheduleFor e < scheduleFor x)
          \<and> (\<forall>x\<in>set post. isAvailable now x \<longrightarrow> priority x \<noteq> ''scheduled'' \<or> scheduleFor e \<le> scheduleFor x)"
  have pe: "priority e \<notin> set inheritedProperties"
    using assms(1) by (simp add: inheritedProperties_def)
  have plain: "\<forall>x\<in>set (eventQueue orch). priority x \<notin> set inheritedProperties"
    using due pe assms(2) by auto
  have rank: "classNumber (priority e) = 1" using assms(1) by (simp add: classNumber_def)
  have other: "\<And>x. priority x \<noteq> ''scheduled'' \<Longrightarrow> 1 < classNumber (priority x)"
    by (simp add: classNumber_def)
  have same: "\<And>x. priority x = ''scheduled'' \<Longrightarrow> classNumber (priority x) = 1"
    by (simp add: classNumber_def)
  have av: "isAvailable now e" using due assms(1) by (simp add: isAvailable_def)
  have before: "\<forall>x\<in>set pre. isAvailable now x \<longrightarrow> sortCompare e x < 0"
  proof (intro ballI impI)
    fix x assume x: "x \<in> set pre" and a: "isAvailable now x"
    then have px: "priority x \<notin> set inheritedProperties" using due by simp
    from x a due have "priority x \<noteq> ''scheduled'' \<or> scheduleFor e < scheduleFor x" by blast
    then have "1 < classNumber (priority x) \<or> (1 = classNumber (priority x) \<and> scheduleFor e < scheduleFor x)"
      using other [of x] same [of x] by (cases "priority x = ''scheduled''") simp_all
    then show "sortCompare e x < 0"
      unfolding sortCompare_less_iff [OF pe px] rank .
  qed
  have after: "\<forall>x\<in>set post. isAvailable now x \<longrightarrow> sortCompare e x \<le> 0"
  proof (intro ballI impI)
    fix x assume x: "x \<in> set post" and a: "isAvailable now x"
    then have px: "priority x \<notin> set inheritedProperties" using due by simp
    from x a due have "priority x \<noteq> ''scheduled'' \<or> scheduleFor e \<le> scheduleFor x" by blast
    then have "1 < classNumber (priority x) \<or> (1 = classNumber (priority x) \<and> scheduleFor e \<le> scheduleFor x)"
      using other [of x] same [of x] by (cases "priority x = ''scheduled''") simp_all
    then show "sortCompare e x \<le> 0"
      unfolding sortCompare_le_iff [OF pe px] rank .
  qed
  have sel: "getPrioritisedEventFromQueue now (eventQueue orch) = (Some e, pre @ post)"
    using selection_unique [OF assms(2) av plain before after] .
  from due have run: "\<not> abortCommand orch" by blast
  note d = processQueue_dispatch [OF run sel]
  show "eventQueue (fst (processQueue now orch)) = pre @ post"
    using sel due by (simp add: processQueue_queue)
  show "fst (snd (processQueue now orch)) = [NoBus e]"
    if "filter (\<lambda>b. fst b = eventBusId e) (eventBuses orch) = []"
    using d that by simp
  show "fst (snd (processQueue now orch)) = [Published e (fst (emit (eventId e) (snd b)))]"
    if "filter (\<lambda>b. fst b = eventBusId e) (eventBuses orch) = b # bs" for b bs
    using d that by simp
  show "fst (snd (processQueue now orch))
          = [Published e
               \<lparr> reported = False,
                 invoked = map callback
                             (filter (\<lambda>l. listenerType l = eventId e) (targetListeners (snd b))) \<rparr>]"
    if "filter (\<lambda>b. fst b = eventBusId e) (eventBuses orch) = b # bs"
      and "filter (\<lambda>l. eventName l = eventId e) (activeListeners (snd b)) \<noteq> []" for b bs
    using d that emit_with_record [of "eventId e" "snd b"] by simp
  show "\<exists>ds. fst (snd (runFrame now (Suc n) orch)) = fst (snd (processQueue now orch)) @ ds"
    by (simp only: runFrame_Suc fst_conv snd_conv) blast
qed

theorem C5_scheduled_item_witness:
  "ApplicationEventQueueItem ''g2'' 2 ''ui'' ''tap'' ''scheduled'' (Some 20) None NoDetail
      \<notin> set (selectedItems (fst (snd (runFrame 10 3 exampleOrchestrator))))
   \<and> ApplicationEventQueueItem ''g2'' 2 ''ui'' ''tap'' ''scheduled'' (Some 20) None NoDetail
      \<in> set (eventQueue (fst (runFrame 10 3 exampleOrchestrator)))
   \<and> fst (snd (processQueue 20 exampleOrchestrator))
      = [Published (ApplicationEventQueueItem ''g2'' 2 ''ui'' ''tap'' ''scheduled'' (Some 20) None NoDetail)
           \<lparr> reported = False, invoked = [0] \<rparr>]
   \<and> length (eventQueue (fst (processQueue 20 exampleOrchestrator))) = 4
   \<and> 0 < snd (snd (runFrame 20 (Suc 0) exampleOrchestrator))"
proof -
  let ?e = "ApplicationEventQueueItem ''g2'' 2 ''ui'' ''tap'' ''scheduled'' (Some 20) None NoDetail"
  let ?pre = "[ApplicationEventQueueItem ''g1'' 1 ''ui'' ''tap'' ''default'' None None NoDetail]"
  let ?post = "[ApplicationEventQueueItem ''g3'' 5 ''ui'' ''tap'' ''immediate'' None None NoDetail,
      ApplicationEventQueueItem ''g4'' 6 ''ui'' ''tap'' ''immediate'' (Some 5) None NoDetail,
      ApplicationEventQueueItem ''g5'' 7 ''ui'' ''tap'' ''immediate'' (Some 4) None NoDetail]"
  let ?bus = "(''ui'', on ''tap'' 0 (newEventBus ''ui''))"
  have p: "priority ?e = ''scheduled''" by (simp add: ApplicationEventQueueItem_def)
  have q: "eventQueue exampleOrchestrator = ?pre @ ?e # ?post"
    by (simp add: exampleOrchestrator_def exampleQueue_def)
  have early: "(10::int) < scheduleFor ?e" by (simp add: ApplicationEventQueueItem_def)
  have due: "scheduleFor ?e \<le> 20 \<and> \<not> abortCommand exampleOrchestrator
          \<and> (\<forall>x\<in>set (?pre @ ?post). priority x \<notin> set inheritedProperties)
          \<and> (\<forall>x\<in>set ?pre. isAvailable 20 x \<longrightarrow> priority x \<noteq> ''scheduled'' \<or> scheduleFor ?e < scheduleFor x)
          \<and> (\<forall>x\<in>set ?post. isAvailable 20 x \<longrightarrow> priority x \<noteq> ''scheduled'' \<or> scheduleFor ?e \<le> scheduleFor x)"
    by (simp add: ApplicationEventQueueItem_def exampleOrchestrator_def inheritedProperties_def)
  have bus: "filter (\<lambda>b. fst b = eventBusId ?e) (eventBuses exampleOrchestrator) = ?bus # []"
    by (simp add: exampleOrchestrator_def ApplicationEventQueueItem_def)
  have rec: "filter (\<lambda>l. eventName l = eventId ?e) (activeListeners (snd ?bus)) \<noteq> []"
    by (simp add: ApplicationEventQueueItem_def on_def newEventBus_def)
  have handlers: "map callback (filter (\<lambda>l. listenerType l = eventId ?e) (targetListeners (snd ?bus))) = [0]"
    by (simp add: ApplicationEventQueueItem_def on_def newEventBus_def addEventListener_def)
  from C5_scheduled_item [OF p q, of 10 3] early
  have a: "?e \<notin> set (selectedItems (fst (snd (runFrame 10 3 exampleOrchestrator))))
       \<and> ?e \<in> set (eventQueue (fst (runFrame 10 3 exampleOrchestrator)))" by blast
  from C5_scheduled_item [OF p q, of 20 0] due bus rec
  have b: "fst (snd (processQueue 20 exampleOrchestrator))
             = [Published ?e
                  \<lparr> reported = False,
                    invoked = map callback
                                (filter (\<lambda>l. listenerType l = eventId ?e) (targetListeners (snd ?bus))) \<rparr>]
       \<and> eventQueue (fst (processQueue 20 exampleOrchestrator)) = ?pre @ ?post
       \<and> 0 < snd (snd (runFrame 20 (Suc 0) exampleOrchestrator))" by blast
  from a b handlers show ?thesis by simp
qed

subsection \<open>Claim C3: coalescing of navigation requests\<close>

lemma item_fields:
  "eventBusId (ApplicationEventQueueItem guid now bus ev prio sched expi ps) = bus"
  "eventId (ApplicationEventQueueItem guid now bus ev prio sched expi ps) = ev"
  "instanceIdentifier (ApplicationEventQueueItem guid now bus ev prio sched expi ps) = guid"
  by (simp_all add: ApplicationEventQueueItem_def)

text \<open>
  C3. The reserved pairs are the bus \<open>navigation-manager\<close> with the events
  \<open>navigate-to-page\<close> and \<open>navigate-to-view\<close>. An \<open>enqueue\<close> for a reserved pair leaves
  the queue without its former items of that bus and event, followed by the new item, so
  the new item is the only queued one of its pair; a second \<open>enqueue\<close> for the same pair
  right after the first leaves exactly the second item for the pair. An \<open>enqueue\<close> for
  any other pair appends the new item and removes nothing. The call returns the new
  item's identifier.
\<close>

theorem C3_coalescing:
  "(forBus = ''navigation-manager'' \<and> (event = ''navigate-to-page'' \<or> event = ''navigate-to-view'') \<longrightarrow>
       fst (enqueue guid now event forBus prio ps sched expi q)
         = filter (\<lambda>i. \<not> (eventBusId i = forBus \<and> eventId i = event)) q
           @ [ApplicationEventQueueItem guid now forBus event
                (case prio of None \<Rightarrow> ''default'' | Some p \<Rightarrow> p) sched expi ps]
     \<and> filter (\<lambda>i. eventBusId i = forBus \<and> eventId i = event)
          (fst (enqueue guid now event forBus prio ps sched expi q))
         = [ApplicationEventQueueItem guid now forBus event
                (case prio of None \<Rightarrow> ''default'' | Some p \<Rightarrow> p) sched expi ps]
     \<and> filter (\<lambda>i. eventBusId i = forBus \<and> eventId i = event)
          (fst (enqueue guid' now' event forBus prio' ps' sched' expi'
                  (fst (enqueue guid now event forBus prio ps sched expi q))))
         = [ApplicationEventQueueItem guid' now' forBus event
                (case prio' of None \<Rightarrow> ''default'' | Some p \<Rightarrow> p) sched' expi' ps'])
   \<and> (\<not> (forBus = ''navigation-manager'' \<and> (event = ''navigate-to-page'' \<or> event = ''navigate-to-view'')) \<longrightarrow>
       fst (enqueue guid now event forBus prio ps sched expi q)
         = q @ [ApplicationEventQueueItem guid now forBus event
                (case prio of None \<Rightarrow> ''default'' | Some p \<Rightarrow> p) sched expi ps])
   \<and> snd (enqueue guid now event forBus prio ps sched expi q) = guid"
proof -
  have gone: "\<And>xs. filter (\<lambda>i. eventBusId i = forBus \<and> eventId i = event)
                (filter (\<lambda>i. \<not> (eventBusId i = forBus \<and> eventId i = event)) xs) = []"
    by (simp add: filter_empty_conv)
  have one: "\<And>g n p s x d xs.
      forBus = ''navigation-manager'' \<and> (event = ''navigate-to-page'' \<or> event = ''navigate-to-view'') \<Longrightarrow>
      filter (\<lambda>i. eventBusId i = forBus \<and> eventId i = event)
          (fst (enqueue g n event forBus p d s x xs))
         = [ApplicationEventQueueItem g n forBus event
                (case p of None \<Rightarrow> ''default'' | Some p \<Rightarrow> p) s x d]"
    using gone by (simp add: enqueue_def Let_def removeQueuedNavigationEvents_def item_fields)
  show ?thesis
    using one by (auto simp: enqueue_def Let_def removeQueuedNavigationEvents_def item_fields)
qed

theorem C3_coalescing_witness:
  "filter (\<lambda>i. eventBusId i = ''navigation-manager'' \<and> eventId i = ''navigate-to-view'')
      (fst (enqueue ''g8'' 8 ''navigate-to-view'' ''navigation-manager'' None (ViewDetail ''menu'' snapConfig) None None
        (fst (enqueue ''g7'' 7 ''navigate-to-view'' ''navigation-manager'' None (ViewDetail ''home'' snapConfig) None None
           exampleQueue))))
     = [ApplicationEventQueueItem ''g8'' 8 ''navigation-manager'' ''navigate-to-view'' ''default'' None None
          (ViewDetail ''menu'' snapConfig)]
   \<and> fst (enqueue ''g9'' 9 ''tap'' ''ui'' (Some ''animation'') NoDetail None None exampleQueue)
     = exampleQueue @ [ApplicationEventQueueItem ''g9'' 9 ''ui'' ''tap'' ''animation'' None None NoDetail]"
proof -
  have r: "''navigation-manager'' = ''navigation-manager''
       \<and> (''navigate-to-view'' = ''navigate-to-page'' \<or> ''navigate-to-view'' = ''navigate-to-view'')" by simp
  have n: "\<not> (''ui'' = ''navigation-manager'' \<and> (''tap'' = ''navigate-to-page'' \<or> ''tap'' = ''navigate-to-view''))"
    by simp
  from C3_coalescing [of "''navigation-manager''" "''navigate-to-view''" "''g7''" 7 None "ViewDetail ''home'' snapConfig"
      None None exampleQueue "''g8''" 8 None "ViewDetail ''menu'' snapConfig" None None] r
  have "filter (\<lambda>i. eventBusId i = ''navigation-manager'' \<and> eventId i = ''navigate-to-view'')
      (fst (enqueue ''g8'' 8 ''navigate-to-view'' ''navigation-manager'' None (ViewDetail ''menu'' snapConfig) None None
        (fst (enqueue ''g7'' 7 ''navigate-to-view'' ''navigation-manager'' None (ViewDetail ''home'' snapConfig) None None
           exampleQueue))))
     = [ApplicationEventQueueItem ''g8'' 8 ''navigation-manager'' ''navigate-to-view''
          (case None of None \<Rightarrow> ''default'' | Some p \<Rightarrow> p) None None
          (ViewDetail ''menu'' snapConfig)]" by blast
  then have a: "filter (\<lambda>i. eventBusId i = ''navigation-manager'' \<and> eventId i = ''navigate-to-view'')
      (fst (enqueue ''g8'' 8 ''navigate-to-view'' ''navigation-manager'' None (ViewDetail ''menu'' snapConfig) None None
        (fst (enqueue ''g7'' 7 ''navigate-to-view'' ''navigation-manager'' None (ViewDetail ''home'' snapConfig) None None
           exampleQueue))))
     = [ApplicationEventQueueItem ''g8'' 8 ''navigation-manager'' ''navigate-to-view'' ''default'' None None
          (ViewDetail ''menu'' snapConfig)]" by (simp only: option.case)
  from C3_coalescing [of "''ui''" "''tap''" "''g9''" 9 "Some ''animation''" NoDetail None None exampleQueue] n
  have "fst (enqueue ''g9'' 9 ''tap'' ''ui'' (Some ''animation'') NoDetail None None exampleQueue)
     = exampleQueue @ [ApplicationEventQueueItem ''g9'' 9 ''ui'' ''tap''
          (case Some ''animation'' of None \<Rightarrow> ''default'' | Some p \<Rightarrow> p) None None NoDetail]"
    by blast
  then have b: "fst (enqueue ''g9'' 9 ''tap'' ''ui'' (Some ''animation'') NoDetail None None exampleQueue)
     = exampleQueue @ [ApplicationEventQueueItem ''g9'' 9 ''ui'' ''tap'' ''animation'' None None NoDetail]"
    by (simp only: option.case)
  from a b show ?thesis by blast
qed

subsection \<open>Claim C8: rescheduling a queued item\<close>

lemma setScheduleOfFirst_split:
  "\<forall>x\<in>set pre. instanceIdentifier x \<noteq> instanceIdentifier e \<Longrightarrow>
     setScheduleOfFirst (instanceIdentifier e) t (pre @ e # post) = pre @ e\<lparr>scheduleFor := t\<rparr> # post"
  by (induction pre) auto

lemma reschedule_absent:
  "\<forall>x\<in>set q. instanceIdentifier x \<noteq> ident \<Longrightarrow> rescheduleQueuedEvent ident t q = Inl TypeError"
  by (simp add: rescheduleQueuedEvent_def filter_empty_conv[THEN iffD2])

text \<open>
  C8, as the code has it. \<open>rescheduleQueuedEvent\<close> sets the \<open>scheduleFor\<close> of the first
  queued item with the identifier and leaves the rest of the queue as it is. For an
  identifier that no queued item has it fails with a TypeError, and that is also what
  happens for the identifier of an item that was dispatched: the dispatch took the item
  out of the queue, and the orchestrator keeps no record of dispatched identifiers.
\<close>

theorem C8_reschedule:
  "(q = pre @ e # post \<and> (\<forall>x\<in>set pre. instanceIdentifier x \<noteq> instanceIdentifier e) \<longrightarrow>
       rescheduleQueuedEvent (instanceIdentifier e) t q = Inr (pre @ e\<lparr>scheduleFor := t\<rparr> # post))
   \<and> ((\<forall>x\<in>set q. instanceIdentifier x \<noteq> ident) \<longrightarrow> rescheduleQueuedEvent ident t q = Inl TypeError)
   \<and> (distinct (map instanceIdentifier q0) \<and> getPrioritisedEventFromQueue now q0 = (Some d, q') \<longrightarrow>
       rescheduleQueuedEvent (instanceIdentifier d) t q' = Inl TypeError)"
proof (intro conjI impI)
  assume a: "q = pre @ e # post \<and> (\<forall>x\<in>set pre. instanceIdentifier x \<noteq> instanceIdentifier e)"
  then have "filter (\<lambda>x. instanceIdentifier x = instanceIdentifier e) q \<noteq> []"
    by (simp add: filter_empty_conv)
  then obtain y ys where "filter (\<lambda>x. instanceIdentifier x = instanceIdentifier e) q = y # ys"
    by (cases "filter (\<lambda>x. instanceIdentifier x = instanceIdentifier e) q") auto
  then show "rescheduleQueuedEvent (instanceIdentifier e) t q = Inr (pre @ e\<lparr>scheduleFor := t\<rparr> # post)"
    using a by (simp add: rescheduleQueuedEvent_def setScheduleOfFirst_split)
next
  assume "\<forall>x\<in>set q. instanceIdentifier x \<noteq> ident"
  then show "rescheduleQueuedEvent ident t q = Inl TypeError" by (rule reschedule_absent)
next
  assume a: "distinct (map instanceIdentifier q0) \<and> getPrioritisedEventFromQueue now q0 = (Some d, q')"
  then have sel: "getPrioritisedEventFromQueue now q0 = (Some d, q')" by blast
  from selection_member [OF sel] have "d \<in> set q0" and q': "q' = remove1 d q0" by simp_all
  then obtain pre' post' where q0: "q0 = pre' @ d # post'" and "d \<notin> set pre'"
    by (meson split_list_first)
  then have r: "q' = pre' @ post'" using q' by (simp add: remove1_append)
  from a q0 have "instanceIdentifier d \<notin> instanceIdentifier ` set (pre' @ post')" by auto
  then have "\<forall>x\<in>set (pre' @ post'). instanceIdentifier x \<noteq> instanceIdentifier d" by (metis imageI)
  then show "rescheduleQueuedEvent (instanceIdentifier d) t q' = Inl TypeError"
    unfolding r by (rule reschedule_absent)
qed

text \<open>
  The claim's no-op for a dispatched item does not hold: an item is enqueued and
  dispatched, and rescheduling its identifier then throws.
\<close>

theorem C8_dispatched_counterexample:
  "fst (getPrioritisedEventFromQueue 5
          (fst (enqueue ''g1'' 1 ''tap'' ''ui'' None NoDetail None None [])))
     = Some (ApplicationEventQueueItem ''g1'' 1 ''ui'' ''tap'' ''default'' None None NoDetail)
   \<and> rescheduleQueuedEvent ''g1'' 99
        (snd (getPrioritisedEventFromQueue 5
               (fst (enqueue ''g1'' 1 ''tap'' ''ui'' None NoDetail None None []))))
     = Inl TypeError"
  by (simp add: enqueue_def getPrioritisedEventFromQueue_def isAvailable_def ApplicationEventQueueItem_def
        rescheduleQueuedEvent_def Let_def)

theorem C8_reschedule_witness:
  "rescheduleQueuedEvent ''g3'' 50 exampleQueue
     = Inr [ApplicationEventQueueItem ''g1'' 1 ''ui'' ''tap'' ''default'' None None NoDetail,
            ApplicationEventQueueItem ''g2'' 2 ''ui'' ''tap'' ''scheduled'' (Some 20) None NoDetail,
            ApplicationEventQueueItem ''g3'' 5 ''ui'' ''tap'' ''immediate'' (Some 50) None NoDetail,
            ApplicationEventQueueItem ''g4'' 6 ''ui'' ''tap'' ''immediate'' (Some 5) None NoDetail,
            ApplicationEventQueueItem ''g5'' 7 ''ui'' ''tap'' ''immediate'' (Some 4) None NoDetail]
   \<and> rescheduleQueuedEvent ''zz'' 50 exampleQueue = Inl TypeError
   \<and> rescheduleQueuedEvent ''g5'' 50 (snd (getPrioritisedEventFromQueue 10 exampleQueue)) = Inl TypeError"
proof -
  let ?g1 = "ApplicationEventQueueItem ''g1'' 1 ''ui'' ''tap'' ''default'' None None NoDetail"
  let ?g2 = "ApplicationEventQueueItem ''g2'' 2 ''ui'' ''tap'' ''scheduled'' (Some 20) None NoDetail"
  let ?g3 = "ApplicationEventQueueItem ''g3'' 5 ''ui'' ''tap'' ''immediate'' None None NoDetail"
  let ?g4 = "ApplicationEventQueueItem ''g4'' 6 ''ui'' ''tap'' ''immediate'' (Some 5) None NoDetail"
  let ?g5 = "ApplicationEventQueueItem ''g5'' 7 ''ui'' ''tap'' ''immediate'' (Some 4) None NoDetail"
  have h1: "exampleQueue = [?g1, ?g2] @ ?g3 # [?g4, ?g5]
        \<and> (\<forall>x\<in>set [?g1, ?g2]. instanceIdentifier x \<noteq> instanceIdentifier ?g3)"
    by (simp add: exampleQueue_def ApplicationEventQueueItem_def)
  have h2: "\<forall>x\<in>set exampleQueue. instanceIdentifier x \<noteq> ''zz''"
    by (simp add: exampleQueue_def ApplicationEventQueueItem_def)
  have h3: "distinct (map instanceIdentifier exampleQueue)
        \<and> getPrioritisedEventFromQueue 10 exampleQueue = (Some ?g5, [?g1, ?g2, ?g3, ?g4])"
    by (simp add: exampleQueue_def ApplicationEventQueueItem_def getPrioritisedEventFromQueue_def
          isAvailable_def sortCompare_def compareEvents_def priorityOrder_def classNumber_def
          inheritedProperties_def Let_def)
  from C8_reschedule [of exampleQueue "[?g1, ?g2]" ?g3 "[?g4, ?g5]" 50] h1
  have "rescheduleQueuedEvent (instanceIdentifier ?g3) 50 exampleQueue
          = Inr ([?g1, ?g2] @ ?g3\<lparr>scheduleFor := 50\<rparr> # [?g4, ?g5])" by blast
  then have a: "rescheduleQueuedEvent ''g3'' 50 exampleQueue
     = Inr [?g1, ?g2, ApplicationEventQueueItem ''g3'' 5 ''ui'' ''tap'' ''immediate'' (Some 50) None NoDetail, ?g4, ?g5]"
    by (simp add: ApplicationEventQueueItem_def)
  from C8_reschedule [of exampleQueue _ _ _ 50 "''zz''"] h2
  have b: "rescheduleQueuedEvent ''zz'' 50 exampleQueue = Inl TypeError" by blast
  from C8_reschedule [of _ _ _ _ 50 _ exampleQueue 10 ?g5 "[?g1, ?g2, ?g3, ?g4]"] h3
  have "rescheduleQueuedEvent (instanceIdentifier ?g5) 50 [?g1, ?g2, ?g3, ?g4] = Inl TypeError" by blast
  then have c: "rescheduleQueuedEvent ''g5'' 50 (snd (getPrioritisedEventFromQueue 10 exampleQueue)) = Inl TypeError"
    using h3 by (simp add: ApplicationEventQueueItem_def)
  from a b c show ?thesis by blast
qed

section \<open>Properties of the event bus\<close>

subsection \<open>Claim C7: publishing without listeners\<close>

text \<open>With no record for the event name, \<open>emit\<close> reports and dispatches nothing.\<close>

lemma emit_without_record:
  "filter (\<lambda>l. eventName l = type) (activeListeners bus) = [] \<Longrightarrow>
     emit type bus = (\<lparr> reported = True, invoked = [] \<rparr>, bus)"
  by (simp add: emit_def validateEventDispatch_def)

lemma emit_never_added: "emit type (newEventBus name) = (\<lparr> reported = True, invoked = [] \<rparr>, newEventBus name)"
  by (simp add: emit_def validateEventDispatch_def newEventBus_def)

lemma removeListener_keeps_records:
  "removeListener type bus = Inr bus' \<Longrightarrow> activeListeners bus' = activeListeners bus"
  by (auto simp: removeListener_def abortController_def split: list.splits)

text \<open>
  C7, where the code departs from it. A listener for \<open>tap\<close> is added to a new bus and
  then cancelled with \<open>remove\<close>. The event target has no listener left, but the record
  is still in \<open>activeListeners\<close>, so \<open>emit\<close> finds a record, reports nothing and calls
  \<open>dispatchEvent\<close>, which invokes no handler.
\<close>

theorem C7_cancelled_listener_not_reported:
  "(case removeListener ''tap'' (on ''tap'' 0 (newEventBus ''ui'')) of
      Inl err \<Rightarrow> False
    | Inr bus \<Rightarrow> targetListeners bus = []
              \<and> activeListeners bus = [\<lparr> eventName = ''tap'', removeAborts = 0 \<rparr>]
              \<and> emit ''tap'' bus = (\<lparr> reported = False, invoked = [] \<rparr>, bus))"
  by (simp add: removeListener_def on_def newEventBus_def addEventListener_def abortController_def
        emit_def validateEventDispatch_def dispatchEvent_def)

subsection \<open>Claim C2: what one frame dispatches\<close>

lemma processQueue_at_most_one:
  "length (selectedItems (fst (snd (processQueue now orch)))) \<le> 1"
  by (simp add: processQueue_selected split: option.splits)

text \<open>
  C2, where the code departs from it. The example orchestrator holds five items, four
  of them available at time 10, and one call of \<open>processQueue\<close> is pending, as after
  \<open>run\<close>. The frame dispatches one item; three available items stay queued, and two
  calls are pending for the next frame.
\<close>

theorem C2_one_item_per_call:
  "selectedItems (fst (snd (runFrame 10 1 exampleOrchestrator)))
     = [ApplicationEventQueueItem ''g5'' 7 ''ui'' ''tap'' ''immediate'' (Some 4) None NoDetail]
   \<and> filter (isAvailable 10) (eventQueue (fst (runFrame 10 1 exampleOrchestrator)))
     = [ApplicationEventQueueItem ''g1'' 1 ''ui'' ''tap'' ''default'' None None NoDetail,
        ApplicationEventQueueItem ''g3'' 5 ''ui'' ''tap'' ''immediate'' None None NoDetail,
        ApplicationEventQueueItem ''g4'' 6 ''ui'' ''tap'' ''immediate'' (Some 5) None NoDetail]
   \<and> snd (snd (runFrame 10 1 exampleOrchestrator)) = 2"
proof -
  have sel: "getPrioritisedEventFromQueue 10 exampleQueue
      = (Some (ApplicationEventQueueItem ''g5'' 7 ''ui'' ''tap'' ''immediate'' (Some 4) None NoDetail),
         [ApplicationEventQueueItem ''g1'' 1 ''ui'' ''tap'' ''default'' None None NoDetail,
          ApplicationEventQueueItem ''g2'' 2 ''ui'' ''tap'' ''scheduled'' (Some 20) None NoDetail,
          ApplicationEventQueueItem ''g3'' 5 ''ui'' ''tap'' ''immediate'' None None NoDetail,
          ApplicationEventQueueItem ''g4'' 6 ''ui'' ''tap'' ''immediate'' (Some 5) None NoDetail])"
    by (simp add: exampleQueue_def ApplicationEventQueueItem_def getPrioritisedEventFromQueue_def
          isAvailable_def sortCompare_def compareEvents_def priorityOrder_def classNumber_def
          inheritedProperties_def Let_def)
  have q: "eventQueue exampleOrchestrator = exampleQueue" "\<not> abortCommand exampleOrchestrator"
    by (simp_all add: exampleOrchestrator_def)
  have ne: "exampleQueue \<noteq> []" by (simp add: exampleQueue_def)
  have pq: "snd (snd (processQueue 10 exampleOrchestrator)) = 2"
    using sel q ne
    by (simp add: processQueue_def processNextQueueItem_def exampleOrchestrator_def emit_def Let_def
          on_def newEventBus_def addEventListener_def validateEventDispatch_def dispatchEvent_def
          ApplicationEventQueueItem_def split: prod.splits)
  show ?thesis
    using sel q pq
    by (simp add: runFrame_Suc processQueue_selected processQueue_queue)
       (simp add: ApplicationEventQueueItem_def isAvailable_def)
qed

section \<open>Properties of navigation\<close>

text \<open>A navigation request only enqueues: the promise it returns never rejects.\<close>

lemma navigateToView_never_fails: "fst (navigateToView guid now viewId config prio w) = None"
  by (simp add: navigateToView_def Let_def)

lemma navigateToPage_never_fails: "fst (navigateToPage guid now pageId config prio w) = None"
  by (simp add: navigateToPage_def Let_def)

subsection \<open>Claim C4: a transition whose animation protocol throws\<close>

text \<open>
  A transition that starts ends with the flag false, whether the animation protocol
  completed or threw, and rejects with what the protocol threw.
\<close>

lemma view_transition_started:
  assumes "viewId \<in> views w" and "store w ''navigation.currentViewId'' \<noteq> Some (VStr viewId)"
  shows "fst (performViewNavigationInternal anim viewId config w) = anim"
    and "store (snd (performViewNavigationInternal anim viewId config w)) ''navigation.isTransitioning''
           = Some (VBool False)"
  using assms
  by (auto simp: performViewNavigationInternal_def performViewTransition_def world_facts Let_def
        split: option.splits)

lemma page_transition_started:
  assumes "pageId \<in> pages w" and "store w ''navigation.currentPageId'' \<noteq> Some (VStr pageId)"
  shows "fst (performPageNavigationInternal anim pageId config w) = anim"
    and "store (snd (performPageNavigationInternal anim pageId config w)) ''navigation.isTransitioning''
           = Some (VBool False)"
  using assms
  by (auto simp: performPageNavigationInternal_def performPageTransition_def world_facts Let_def
        split: option.splits)

text \<open>
  C4, where the code departs from it. From the view \<open>home\<close> a transition to the view
  \<open>menu\<close> is requested and its animation protocol throws; likewise a transition to the
  page \<open>p2\<close>. The request, \<open>navigateToView\<close> or \<open>navigateToPage\<close>, returns without an
  error: it has only queued the item. The next frame selects the item, which leaves the
  world as it was before the request, and the listener of the navigation bus performs
  the transition, which rejects with what the protocol
  threw; \<open>navigation.isTransitioning\<close> is false afterwards and the current view and page
  are as before. The listener hands the rejection to nobody: what it leaves is the world.
\<close>

theorem C4_error_never_reaches_requester:
  "fst (navigateToView ''g1'' 1000 ''menu'' (Some \<lparr> ttype = ''fade'', duration = Some 500 \<rparr>) None exampleWorld)
     = None
   \<and> getPrioritisedEventFromQueue 1016
        (pending (snd (navigateToView ''g1'' 1000 ''menu''
                         (Some \<lparr> ttype = ''fade'', duration = Some 500 \<rparr>) None exampleWorld)))
     = (Some (ApplicationEventQueueItem ''g1'' 1000 ''navigation-manager'' ''navigate-to-view''
                ''immediate'' None None (ViewDetail ''menu'' \<lparr> ttype = ''fade'', duration = Some 500 \<rparr>)), [])
   \<and> (snd (navigateToView ''g1'' 1000 ''menu''
              (Some \<lparr> ttype = ''fade'', duration = Some 500 \<rparr>) None exampleWorld)) \<lparr> pending := [] \<rparr>
     = exampleWorld
   \<and> fst (performViewNavigationInternal (Some (AnimationFailure ''stalled'')) ''menu''
            \<lparr> ttype = ''fade'', duration = Some 500 \<rparr> exampleWorld)
     = Some (AnimationFailure ''stalled'')
   \<and> store (navigationListener (Some (AnimationFailure ''stalled''))
              (ApplicationEventQueueItem ''g1'' 1000 ''navigation-manager'' ''navigate-to-view''
                 ''immediate'' None None (ViewDetail ''menu'' \<lparr> ttype = ''fade'', duration = Some 500 \<rparr>))
              exampleWorld) ''navigation.isTransitioning''
     = Some (VBool False)
   \<and> store (navigationListener (Some (AnimationFailure ''stalled''))
              (ApplicationEventQueueItem ''g1'' 1000 ''navigation-manager'' ''navigate-to-view''
                 ''immediate'' None None (ViewDetail ''menu'' \<lparr> ttype = ''fade'', duration = Some 500 \<rparr>))
              exampleWorld) ''navigation.currentViewId''
     = Some (VStr ''home'')
   \<and> fst (navigateToPage ''g2'' 1000 ''p2'' (Some \<lparr> ttype = ''fade'', duration = Some 500 \<rparr>) None exampleWorld)
     = None
   \<and> getPrioritisedEventFromQueue 1016
        (pending (snd (navigateToPage ''g2'' 1000 ''p2''
                         (Some \<lparr> ttype = ''fade'', duration = Some 500 \<rparr>) None exampleWorld)))
     = (Some (ApplicationEventQueueItem ''g2'' 1000 ''navigation-manager'' ''navigate-to-page''
                ''immediate'' None None (PageDetail ''p2'' \<lparr> ttype = ''fade'', duration = Some 500 \<rparr>)), [])
   \<and> (snd (navigateToPage ''g2'' 1000 ''p2''
              (Some \<lparr> ttype = ''fade'', duration = Some 500 \<rparr>) None exampleWorld)) \<lparr> pending := [] \<rparr>
     = exampleWorld
   \<and> fst (performPageNavigationInternal (Some (AnimationFailure ''stalled'')) ''p2''
            \<lparr> ttype = ''fade'', duration = Some 500 \<rparr> exampleWorld)
     = Some (AnimationFailure ''stalled'')
   \<and> store (navigationListener (Some (AnimationFailure ''stalled''))
              (ApplicationEventQueueItem ''g2'' 1000 ''navigation-manager'' ''navigate-to-page''
                 ''immediate'' None None (PageDetail ''p2'' \<lparr> ttype = ''fade'', duration = Some 500 \<rparr>))
              exampleWorld) ''navigation.isTransitioning''
     = Some (VBool False)
   \<and> store (navigationListener (Some (AnimationFailure ''stalled''))
              (ApplicationEventQueueItem ''g2'' 1000 ''navigation-manager'' ''navigate-to-page''
                 ''immediate'' None None (PageDetail ''p2'' \<lparr> ttype = ''fade'', duration = Some 500 \<rparr>))
              exampleWorld) ''navigation.currentPageId''
     = Some (VStr ''p1'')"
proof -
  have sel: "\<And>e. getPrioritisedEventFromQueue 1016 [e] = (if isAvailable 1016 e then (Some e, []) else (None, [e]))"
    by (simp add: getPrioritisedEventFromQueue_def)
  show ?thesis
    by (simp add: sel isAvailable_def navigateToView_def navigateToPage_def enqueue_def
          removeQueuedNavigationEvents_def navigationListener_def
          performViewNavigationInternal_def performViewTransition_def
          performPageNavigationInternal_def performPageTransition_def
          ApplicationEventQueueItem_def exampleWorld_def emitOn_def setState_def logError_def Let_def)
qed

subsection \<open>Claim C10: a page change clears the current view\<close>

text \<open>
  C10. A page transition that starts and whose animation protocol completes sets
  \<open>navigation.currentPageId\<close> to the new page and \<open>navigation.currentViewId\<close> to null. A
  view transition that starts and completes sets \<open>navigation.currentViewId\<close> to the new
  view, and no call of \<open>performViewNavigationInternal\<close>, whatever its outcome, changes
  \<open>navigation.currentPageId\<close>.
\<close>

theorem C10_page_change_clears_view:
  "(pageId \<in> pages w \<and> store w ''navigation.currentPageId'' \<noteq> Some (VStr pageId) \<longrightarrow>
       fst (performPageNavigationInternal None pageId config w) = None
     \<and> store (snd (performPageNavigationInternal None pageId config w)) ''navigation.currentPageId''
         = Some (VStr pageId)
     \<and> store (snd (performPageNavigationInternal None pageId config w)) ''navigation.currentViewId''
         = Some VNull)
   \<and> (viewId \<in> views w \<and> store w ''navigation.currentViewId'' \<noteq> Some (VStr viewId) \<longrightarrow>
       fst (performViewNavigationInternal None viewId config' w) = None
     \<and> store (snd (performViewNavigationInternal None viewId config' w)) ''navigation.currentViewId''
         = Some (VStr viewId))
   \<and> store (snd (performViewNavigationInternal anim viewId config' w)) ''navigation.currentPageId''
       = store w ''navigation.currentPageId''"
  by (auto simp: performPageNavigationInternal_def performPageTransition_def
        performViewNavigationInternal_def performViewTransition_def world_facts Let_def split: option.splits)

theorem C10_page_change_clears_view_witness:
  "fst (performPageNavigationInternal None ''p2'' snapConfig exampleWorld) = None
   \<and> store (snd (performPageNavigationInternal None ''p2'' snapConfig exampleWorld)) ''navigation.currentPageId''
       = Some (VStr ''p2'')
   \<and> store (snd (performPageNavigationInternal None ''p2'' snapConfig exampleWorld)) ''navigation.currentViewId''
       = Some VNull
   \<and> fst (performViewNavigationInternal None ''menu'' snapConfig exampleWorld) = None
   \<and> store (snd (performViewNavigationInternal None ''menu'' snapConfig exampleWorld)) ''navigation.currentViewId''
       = Some (VStr ''menu'')
   \<and> store (snd (performViewNavigationInternal None ''menu'' snapConfig exampleWorld)) ''navigation.currentPageId''
       = Some (VStr ''p1'')"
proof -
  have v: "''menu'' \<in> views exampleWorld \<and> store exampleWorld ''navigation.currentViewId'' \<noteq> Some (VStr ''menu'')"
    by (simp add: exampleWorld_def)
  have p: "''p2'' \<in> pages exampleWorld \<and> store exampleWorld ''navigation.currentPageId'' \<noteq> Some (VStr ''p2'')"
    by (simp add: exampleWorld_def)
  have c: "store exampleWorld ''navigation.currentPageId'' = Some (VStr ''p1'')"
    by (simp add: exampleWorld_def)
  from C10_page_change_clears_view [of "''p2''" exampleWorld snapConfig "''menu''" snapConfig None] v p
  have "fst (performPageNavigationInternal None ''p2'' snapConfig exampleWorld) = None
   \<and> store (snd (performPageNavigationInternal None ''p2'' snapConfig exampleWorld)) ''navigation.currentPageId''
       = Some (VStr ''p2'')
   \<and> store (snd (performPageNavigationInternal None ''p2'' snapConfig exampleWorld)) ''navigation.currentViewId''
       = Some VNull
   \<and> fst (performViewNavigationInternal None ''menu'' snapConfig exampleWorld) = None
   \<and> store (snd (performViewNavigationInternal None ''menu'' snapConfig exampleWorld)) ''navigation.currentViewId''
       = Some (VStr ''menu'')
   \<and> store (snd (performViewNavigationInternal None ''menu'' snapConfig exampleWorld)) ''navigation.currentPageId''
       = store exampleWorld ''navigation.currentPageId''" by blast
  with c show ?thesis by simp
qed

section \<open>Properties of the gesture machine\<close>





lemma navigateToView_world:
  "snd (navigateToView guid now viewId config prio w)
     = w \<lparr> pending := removeQueuedNavigationEvents ''navigate-to-view'' ''navigation-manager'' (pending w)
                       @ [ApplicationEventQueueItem guid now ''navigation-manager'' ''navigate-to-view''
                            (case prio of None \<Rightarrow> ''immediate'' | Some x \<Rightarrow> x) None None
                            (ViewDetail viewId (case config of None \<Rightarrow> snapConfig | Some c \<Rightarrow> c))] \<rparr>"
  by (simp add: navigateToView_def enqueue_def Let_def)



subsection \<open>Claim C6: the corner sequence\<close>




section \<open>Properties of deactivation\<close>

subsection \<open>Claim C9: a failed transition during deactivation\<close>

text \<open>
  The \<open>catch\<close> of the two exit handlers is never entered: \<open>navigateToView\<close> does not
  fail, so an exit from the active state always ends inactive, with no error logged.
\<close>

lemma handleScreensaverExit_no_rollback:
  assumes "ssConfig sc = Some cfg" and "isScreensaverActive sc"
  shows "\<not> isScreensaverActive (fst (handleScreensaverExit guid now sc w))"
    and "store (snd (handleScreensaverExit guid now sc w)) ''screensaver.isActive'' = Some (VBool False)"
    and "errorLog (snd (handleScreensaverExit guid now sc w)) = errorLog w"
proof -
  let ?sc2 = "(stopRebootCheckInterval sc) \<lparr> isScreensaverActive := False \<rparr>"
  let ?w1 = "setState ''screensaver.isActive'' (VBool False) w"
  let ?t = "exitTarget (ssExitBehavior cfg) (ssLastActiveViewId ?sc2) (ssStartingViewId cfg)"
  have cfg2: "ssConfig ?sc2 = Some cfg" using assms(1) by (simp add: stopRebootCheckInterval_def)
  have res: "handleScreensaverExit guid now sc w
      = (if truthyId ?t
         then (resetActivityTimer ?sc2,
               emitOn ''screensaver-manager'' ''screensaver-deactivated''
                 (DeactivatedDetail (the ?t) (ssExitBehavior cfg))
                 (snd (navigateToView guid now (the ?t) (ssTransitionConfig cfg) None ?w1)))
         else (resetActivityTimer ?sc2, ?w1))"
    using assms navigateToView_never_fails [of guid now "the ?t" "ssTransitionConfig cfg" None ?w1]
    by (auto simp: handleScreensaverExit_def Let_def split: prod.splits)
  have act: "\<not> isScreensaverActive (resetActivityTimer ?sc2)"
    using cfg2 by (simp add: resetActivityTimer_def)
  show "\<not> isScreensaverActive (fst (handleScreensaverExit guid now sc w))"
    using act by (simp add: res world_facts)
  show "store (snd (handleScreensaverExit guid now sc w)) ''screensaver.isActive'' = Some (VBool False)"
    by (simp add: res navigateToView_world world_facts)
  show "errorLog (snd (handleScreensaverExit guid now sc w)) = errorLog w"
    by (simp add: res navigateToView_world world_facts)
qed

lemma handleSettingsExit_no_rollback:
  assumes "stConfig s = Some cfg" and "isSettingsActive s"
  shows "\<not> isSettingsActive (fst (handleSettingsExit guid now s w))"
    and "store (snd (handleSettingsExit guid now s w)) ''settings.isActive'' = Some (VBool False)"
    and "errorLog (snd (handleSettingsExit guid now s w)) = errorLog w"
proof -
  let ?s1 = "s \<lparr> isSettingsActive := False \<rparr>"
  let ?w1 = "setState ''settings.isActive'' (VBool False) w"
  let ?t = "exitTarget (stExitBehavior cfg) (stLastActiveViewId ?s1) (stStartingViewId cfg)"
  have res: "handleSettingsExit guid now s w
      = (if truthyId ?t
         then (?s1,
               emitOn ''settings-manager'' ''settings-deactivated''
                 (DeactivatedDetail (the ?t) (stExitBehavior cfg))
                 (snd (navigateToView guid now (the ?t) (stTransitionConfig cfg) None ?w1)))
         else (?s1, ?w1))"
    using assms navigateToView_never_fails [of guid now "the ?t" "stTransitionConfig cfg" None ?w1]
    by (auto simp: handleSettingsExit_def Let_def split: prod.splits)
  show "\<not> isSettingsActive (fst (handleSettingsExit guid now s w))"
    by (simp add: res world_facts)
  show "store (snd (handleSettingsExit guid now s w)) ''settings.isActive'' = Some (VBool False)"
    by (simp add: res navigateToView_world world_facts)
  show "errorLog (snd (handleSettingsExit guid now s w)) = errorLog w"
    by (simp add: res navigateToView_world world_facts)
qed

text \<open>The two exits of the examples, evaluated.\<close>

lemma screensaver_exit_example:
  "handleScreensaverExit ''g1'' 1000 exampleScreensaver exampleIdleWorld
     = (exampleScreensaver \<lparr> activityTimer := True, rebootCheckInterval := False, isScreensaverActive := False \<rparr>,
        emitOn ''screensaver-manager'' ''screensaver-deactivated'' (DeactivatedDetail ''start'' ''reset'')
          ((setState ''screensaver.isActive'' (VBool False) exampleIdleWorld)
             \<lparr> pending := [ApplicationEventQueueItem ''g1'' 1000 ''navigation-manager'' ''navigate-to-view''
                              ''immediate'' None None (ViewDetail ''start'' snapConfig)] \<rparr>))"
  by (simp add: handleScreensaverExit_def exampleScreensaver_def exampleScreensaverConfig_def
        exitTarget_def stopRebootCheckInterval_def resetActivityTimer_def navigateToView_def enqueue_def
        removeQueuedNavigationEvents_def exampleIdleWorld_def exampleWorld_def setState_def Let_def)

lemma settings_exit_example:
  "handleSettingsExit ''g2'' 1000 exampleActiveSettings exampleSettingsWorld
     = (exampleActiveSettings \<lparr> isSettingsActive := False \<rparr>,
        emitOn ''settings-manager'' ''settings-deactivated'' (DeactivatedDetail ''home'' ''reset'')
          ((setState ''settings.isActive'' (VBool False) exampleSettingsWorld)
             \<lparr> pending := [ApplicationEventQueueItem ''g2'' 1000 ''navigation-manager'' ''navigate-to-view''
                              ''immediate'' None None
                              (ViewDetail ''home'' \<lparr> ttype = ''fade'', duration = Some 500 \<rparr>)] \<rparr>))"
  by (simp add: handleSettingsExit_def exampleActiveSettings_def exampleSettings_def exampleSettingsConfig_def
        exitTarget_def navigateToView_def enqueue_def
        removeQueuedNavigationEvents_def exampleSettingsWorld_def exampleWorld_def setState_def Let_def)

text \<open>
  C9, where the code departs from it. The screensaver is showing and is configured to
  reset to the view \<open>start\<close>, which was never registered. The exit handler clears the
  active flag and queues the request; the next frame selects the request and the
  navigation listener performs it, which fails with NotFound. Afterwards the manager's
  flag and \<open>screensaver.isActive\<close> are still false and no handler logged an error. The same
  happens in the settings manager when the animation protocol of the exit transition
  throws: \<open>settings.isActive\<close> stays false.
\<close>

theorem C9_failed_exit_not_rolled_back:
  "getPrioritisedEventFromQueue 1016
       (pending (snd (handleScreensaverExit ''g1'' 1000 exampleScreensaver exampleIdleWorld)))
     = (Some (ApplicationEventQueueItem ''g1'' 1000 ''navigation-manager'' ''navigate-to-view''
                ''immediate'' None None (ViewDetail ''start'' snapConfig)), [])
   \<and> fst (performViewNavigationInternal None ''start'' snapConfig
            ((snd (handleScreensaverExit ''g1'' 1000 exampleScreensaver exampleIdleWorld)) \<lparr> pending := [] \<rparr>))
     = Some (NotFound ''start'')
   \<and> isScreensaverActive (fst (handleScreensaverExit ''g1'' 1000 exampleScreensaver exampleIdleWorld)) = False
   \<and> store (navigationListener None
              (ApplicationEventQueueItem ''g1'' 1000 ''navigation-manager'' ''navigate-to-view''
                 ''immediate'' None None (ViewDetail ''start'' snapConfig))
              ((snd (handleScreensaverExit ''g1'' 1000 exampleScreensaver exampleIdleWorld)) \<lparr> pending := [] \<rparr>))
       ''screensaver.isActive''
     = Some (VBool False)
   \<and> errorLog (navigationListener None
              (ApplicationEventQueueItem ''g1'' 1000 ''navigation-manager'' ''navigate-to-view''
                 ''immediate'' None None (ViewDetail ''start'' snapConfig))
              ((snd (handleScreensaverExit ''g1'' 1000 exampleScreensaver exampleIdleWorld)) \<lparr> pending := [] \<rparr>))
     = []
   \<and> getPrioritisedEventFromQueue 1016
       (pending (snd (handleSettingsExit ''g2'' 1000 exampleActiveSettings exampleSettingsWorld)))
     = (Some (ApplicationEventQueueItem ''g2'' 1000 ''navigation-manager'' ''navigate-to-view''
                ''immediate'' None None (ViewDetail ''home'' \<lparr> ttype = ''fade'', duration = Some 500 \<rparr>)), [])
   \<and> fst (performViewNavigationInternal (Some (AnimationFailure ''stalled'')) ''home''
            \<lparr> ttype = ''fade'', duration = Some 500 \<rparr>
            ((snd (handleSettingsExit ''g2'' 1000 exampleActiveSettings exampleSettingsWorld)) \<lparr> pending := [] \<rparr>))
     = Some (AnimationFailure ''stalled'')
   \<and> isSettingsActive (fst (handleSettingsExit ''g2'' 1000 exampleActiveSettings exampleSettingsWorld)) = False
   \<and> store (navigationListener (Some (AnimationFailure ''stalled''))
              (ApplicationEventQueueItem ''g2'' 1000 ''navigation-manager'' ''navigate-to-view''
                 ''immediate'' None None (ViewDetail ''home'' \<lparr> ttype = ''fade'', duration = Some 500 \<rparr>))
              ((snd (handleSettingsExit ''g2'' 1000 exampleActiveSettings exampleSettingsWorld)) \<lparr> pending := [] \<rparr>))
       ''settings.isActive''
     = Some (VBool False)"
proof -
  have sel: "\<And>e. getPrioritisedEventFromQueue 1016 [e] = (if isAvailable 1016 e then (Some e, []) else (None, [e]))"
    by (simp add: getPrioritisedEventFromQueue_def)
  show ?thesis
    unfolding screensaver_exit_example settings_exit_example
    by (simp add: sel isAvailable_def navigationListener_def performViewNavigationInternal_def performViewTransition_def
          item_fields ApplicationEventQueueItem_def exampleIdleWorld_def exampleSettingsWorld_def
          exampleWorld_def exampleScreensaver_def exampleActiveSettings_def exampleSettings_def
          emitOn_def setState_def logError_def Let_def)
qed

end
